theory Spec2Isabelle
  imports Main "HOL-Library.AList"
begin

section \<open>JavaScript values\<close>

text \<open>
  The server is JavaScript. A value that may be \<^verbatim>\<open>undefined\<close> or \<^verbatim>\<open>null\<close> is an
  \<open>option\<close>; the tests \<^verbatim>\<open>if (v)\<close>, \<^verbatim>\<open>v || d\<close> and \<^verbatim>\<open>v && w\<close> look at truthiness:
  a string is truthy when it is not empty, a number when it is not zero, a \<^verbatim>\<open>Date\<close>
  object always. Times are milliseconds (\<^verbatim>\<open>Date.now()\<close>).
\<close>

definition truthy :: "string option \<Rightarrow> bool" where
  "truthy v = (case v of None \<Rightarrow> False | Some s \<Rightarrow> s \<noteq> [])"

definition truthy_num :: "int option \<Rightarrow> bool" where
  "truthy_num v = (case v of None \<Rightarrow> False | Some n \<Rightarrow> n \<noteq> 0)"

definition truthy_ms :: "nat option \<Rightarrow> bool" where
  "truthy_ms v = (case v of None \<Rightarrow> False | Some n \<Rightarrow> n \<noteq> 0)"

text \<open>\<^verbatim>\<open>a || b\<close> on strings, with \<^verbatim>\<open>null\<close> and \<^verbatim>\<open>undefined\<close> both \<open>None\<close>.\<close>

definition or_str :: "string option \<Rightarrow> string option \<Rightarrow> string option" where
  "or_str a b = (if truthy a then a else b)"

text \<open>\<^verbatim>\<open>a || 'literal'\<close>: the result is always a string.\<close>

definition or_lit :: "string option \<Rightarrow> string \<Rightarrow> string" where
  "or_lit a d = (case a of None \<Rightarrow> d | Some s \<Rightarrow> if s \<noteq> [] then s else d)"

definition or_null :: "string option \<Rightarrow> string option" where
  "or_null a = (if truthy a then a else None)"

definition or_null_num :: "int option \<Rightarrow> int option" where
  "or_null_num a = (if truthy_num a then a else None)"

definition or_null_ms :: "nat option \<Rightarrow> nat option" where
  "or_null_ms a = (if truthy_ms a then a else None)"

section \<open>The persistent store (database.js)\<close>

text \<open>
  Table \<^verbatim>\<open>pc_settings\<close>: \<^verbatim>\<open>pc_id TEXT PRIMARY KEY\<close>, the other columns nullable.
  Table \<^verbatim>\<open>block_periods\<close>: \<^verbatim>\<open>id SERIAL PRIMARY KEY\<close>, \<^verbatim>\<open>user_id\<close>, the times and the
  days as stored text (decoding the days text is not modelled: the server only forwards it).
\<close>

record pc_row =
  pc_id :: string
  name :: "string option"
  last_seen :: "nat option"
  owner_id :: "int option"
  ip :: "string option"
  last_status :: "string option"
  last_status_at :: "nat option"

record period_row =
  period_id :: int
  user_id :: "int option"
  from_time :: "string option"
  to_time :: "string option"
  days :: "string option"

section \<open>The connection registry (server.js, pcConnections)\<close>

text \<open>
  \<^verbatim>\<open>pcConnections\<close> is a JavaScript object from pc id to a mutable entry object
  \<^verbatim>\<open>{ socketId, status, connected, lastStatusAt }\<close>. The entry objects live in a heap
  and the registry holds references, because the probe keeps a reference (\<^verbatim>\<open>conn\<close>)
  across its waits while other handlers mutate or replace entries. The registry keeps
  its keys in insertion order (\<^verbatim>\<open>Object.keys\<close>; pc ids are device-generated text, not
  array indices). \<^verbatim>\<open>connected\<close> is only ever tested for truthiness, so a missing
  \<^verbatim>\<open>connected\<close> is \<open>False\<close>.
\<close>

record conn =
  connected :: bool
  socketId :: "string option"
  status :: "string option"
  lastStatusAt :: "nat option"

definition empty_conn :: conn where
  "empty_conn = \<lparr>connected = False, socketId = None, status = None, lastStatusAt = None\<rparr>"

text \<open>
  The state of the server process together with the store: the two tables, the registry
  and its heap, the live sockets (\<^verbatim>\<open>io.sockets.sockets\<close>, a Map in insertion order) and
  the \<^verbatim>\<open>pcId\<close> property that handlers attach to a socket object.
\<close>

record world =
  pc_settings :: "pc_row list"
  block_periods :: "period_row list"
  pcConnections :: "(string \<times> nat) list"
  heap :: "nat \<Rightarrow> conn"
  next_ref :: nat
  sockets :: "string list"
  socket_pcId :: "string \<Rightarrow> string option"

text \<open>\<^verbatim>\<open>pcConnections[k]\<close>: the reference stored under \<open>k\<close>, if any.\<close>

definition conn_ref :: "world \<Rightarrow> string \<Rightarrow> nat option" where
  "conn_ref w k = map_of (pcConnections w) k"

text \<open>The entry object itself, when the key is present.\<close>

definition conn_entry :: "world \<Rightarrow> string \<Rightarrow> conn option" where
  "conn_entry w k = (case conn_ref w k of None \<Rightarrow> None | Some r \<Rightarrow> Some (heap w r))"

text \<open>\<^verbatim>\<open>pcConnections[k] || {}\<close>\<close>

definition conn_or_empty :: "world \<Rightarrow> string \<Rightarrow> conn" where
  "conn_or_empty w k = (case conn_ref w k of None \<Rightarrow> empty_conn | Some r \<Rightarrow> heap w r)"

text \<open>\<^verbatim>\<open>if (!pcConnections[k]) pcConnections[k] = {}\<close>, returning the reference.\<close>

definition ensure_conn :: "world \<Rightarrow> string \<Rightarrow> nat \<times> world" where
  "ensure_conn w k =
     (case conn_ref w k of
        Some r \<Rightarrow> (r, w)
      | None \<Rightarrow>
          (next_ref w,
           w\<lparr>pcConnections := AList.update k (next_ref w) (pcConnections w),
             heap := (heap w)(next_ref w := empty_conn),
             next_ref := Suc (next_ref w)\<rparr>))"

text \<open>\<^verbatim>\<open>conn && conn.connected && conn.socketId\<close>, on an entry object.\<close>

definition live :: "conn \<Rightarrow> bool" where
  "live c = (connected c \<and> truthy (socketId c))"

text \<open>
  \<^verbatim>\<open>conn = pcConnections[k]; if (conn && conn.connected && conn.socketId)\<close> followed by a
  use of \<^verbatim>\<open>conn.socketId\<close>: the socket id of a live entry.
\<close>

definition live_socket :: "world \<Rightarrow> string \<Rightarrow> string option" where
  "live_socket w k =
     (case conn_entry w k of
        None \<Rightarrow> None
      | Some c \<Rightarrow> if live c then socketId c else None)"

section \<open>What the server sends\<close>

text \<open>One element of a \<^verbatim>\<open>pc_update\<close> list, as built in three places of server.js.\<close>

record pc_view =
  v_id :: string
  v_name :: "string option"
  v_connected :: bool
  v_socketId :: "string option"
  v_status :: string
  v_lastSeen :: "nat option"
  v_lastStatusAt :: "nat option"
  v_ownerId :: "int option"
  v_ip :: "string option"

datatype room = SocketRoom string | Dashboard int

datatype payload =
    PcUpdate "pc_view list"
  | ScheduleUpdate "period_row list"
  | StatusRequest string

text \<open>\<^verbatim>\<open>io.to(room).emit(...)\<close> and \<^verbatim>\<open>sock.emit(...)\<close> on one socket object.\<close>

datatype emit = ToRoom room payload | ToSocket string payload

datatype response =
    Unauthorized
  | BadRequest
  | Forbidden
  | ServerError
  | PcList "pc_view list"
  | Stale string "nat option"
  | Offline
  | Probed string "nat option"
  | Success

section \<open>The merged view\<close>

text \<open>
  \<^verbatim>\<open>let status = row.last_status || 'Unknown';
  if (conn.status && conn.status !== 'Unknown') status = conn.status;\<close>
\<close>

definition merged_status :: "pc_row \<Rightarrow> conn \<Rightarrow> string" where
  "merged_status row c =
     (let st = or_lit (last_status row) ''Unknown''
      in case status c of
           None \<Rightarrow> st
         | Some s \<Rightarrow> if s \<noteq> [] \<and> s \<noteq> ''Unknown'' then s else st)"

definition view_of :: "world \<Rightarrow> pc_row \<Rightarrow> pc_view" where
  "view_of w row =
     (let c = conn_or_empty w (pc_id row)
      in \<lparr>v_id = pc_id row,
          v_name = name row,
          v_connected = connected c,
          v_socketId = or_null (socketId c),
          v_status = merged_status row c,
          v_lastSeen = last_seen row,
          v_lastStatusAt = last_status_at row,
          v_ownerId = or_null_num (owner_id row),
          v_ip = or_null (ip row)\<rparr>)"

text \<open>
  \<^verbatim>\<open>requireAuth\<close>: the session's user id must be truthy; an \<^verbatim>\<open>/api\<close> path is answered
  401 otherwise.
\<close>

definition requireAuth :: "int option \<Rightarrow> int option" where
  "requireAuth session_user = or_null_num session_user"


text \<open>
  \<^verbatim>\<open>broadcastUpdate\<close>: the rows are grouped in the object \<^verbatim>\<open>byOwner\<close>, a row without a
  truthy owner is skipped, and one \<^verbatim>\<open>pc_update\<close> goes to each owner's dashboard room.
\<close>

definition byOwner_push :: "world \<Rightarrow> (int \<times> pc_view list) list \<Rightarrow> pc_row \<Rightarrow> (int \<times> pc_view list) list" where
  "byOwner_push w byOwner row =
     (case or_null_num (owner_id row) of
        None \<Rightarrow> byOwner
      | Some owner \<Rightarrow>
          AList.update owner
            ((case map_of byOwner owner of None \<Rightarrow> [] | Some l \<Rightarrow> l) @ [view_of w row])
            byOwner)"

text \<open>
  \<^verbatim>\<open>Object.keys\<close> of an object whose keys are numbers: the array indices
  (\<open>0 .. 2^32 - 2\<close>) ascending, then the other keys in insertion order.
\<close>

definition object_keys :: "(int \<times> 'a) list \<Rightarrow> int list" where
  "object_keys obj =
     sort (filter (\<lambda>k. 0 \<le> k \<and> k < 2 ^ 32 - 1) (map fst obj))
     @ filter (\<lambda>k. \<not> (0 \<le> k \<and> k < 2 ^ 32 - 1)) (map fst obj)"

definition broadcastUpdate :: "bool \<Rightarrow> world \<Rightarrow> emit list" where
  "broadcastUpdate read_fails w =
     (if read_fails then []
      else
        let byOwner = foldl (byOwner_push w) [] (pc_settings w)
        in map (\<lambda>owner. ToRoom (Dashboard owner)
                  (PcUpdate (case map_of byOwner owner of None \<Rightarrow> [] | Some l \<Rightarrow> l)))
               (object_keys byOwner))"

section \<open>Store operations used by the handlers\<close>

text \<open>\<^verbatim>\<open>SELECT ... FROM pc_settings WHERE pc_id = $1\<close>, and \<^verbatim>\<open>rows[0]\<close>.\<close>

definition select_pc :: "world \<Rightarrow> string \<Rightarrow> pc_row list" where
  "select_pc w k = filter (\<lambda>row. pc_id row = k) (pc_settings w)"

definition first_row :: "'a list \<Rightarrow> 'a option" where
  "first_row rows = (case rows of [] \<Rightarrow> None | row # _ \<Rightarrow> Some row)"

text \<open>\<^verbatim>\<open>UPDATE pc_settings SET last_status = $1, last_status_at = $2 WHERE pc_id = $3\<close>\<close>

definition update_status :: "string \<Rightarrow> string option \<Rightarrow> nat option \<Rightarrow> world \<Rightarrow> world" where
  "update_status k s t w =
     w\<lparr>pc_settings :=
         map (\<lambda>row. if pc_id row = k then row\<lparr>last_status := s, last_status_at := t\<rparr> else row)
           (pc_settings w)\<rparr>"


text \<open>
  \<^verbatim>\<open>SELECT pc_id, owner_id FROM pc_settings WHERE name = $1 ORDER BY last_seen DESC LIMIT 1\<close>.
  In PostgreSQL a NULL sorts first under \<^verbatim>\<open>DESC\<close>. SQL leaves the order among equal
  \<^verbatim>\<open>last_seen\<close> open; the model takes the earlier row of the table.
\<close>

definition seen_ge :: "nat option \<Rightarrow> nat option \<Rightarrow> bool" where
  "seen_ge a b =
     (case a of None \<Rightarrow> True | Some x \<Rightarrow> (case b of None \<Rightarrow> False | Some y \<Rightarrow> y \<le> x))"

fun most_recent :: "pc_row list \<Rightarrow> pc_row option" where
  "most_recent [] = None"
| "most_recent (row # rows) =
     (case most_recent rows of
        None \<Rightarrow> Some row
      | Some best \<Rightarrow> if seen_ge (last_seen row) (last_seen best) then Some row else Some best)"

definition find_by_name :: "world \<Rightarrow> string \<Rightarrow> pc_row option" where
  "find_by_name w nm = most_recent (filter (\<lambda>row. name row = Some nm) (pc_settings w))"

text \<open>SQL \<^verbatim>\<open>COALESCE(a, b)\<close>: \<open>a\<close> unless it is NULL.\<close>

definition coalesce :: "'a option \<Rightarrow> 'a option \<Rightarrow> 'a option" where
  "coalesce a b = (case a of None \<Rightarrow> b | Some _ \<Rightarrow> a)"

text \<open>
  The upsert of \<^verbatim>\<open>register_pc\<close>:
  \<^verbatim>\<open>INSERT INTO pc_settings (pc_id, name, last_seen, ip, owner_id) VALUES ($1..$5)
  ON CONFLICT (pc_id) DO UPDATE SET name = EXCLUDED.name, last_seen = EXCLUDED.last_seen,
  ip = COALESCE(EXCLUDED.ip, pc_settings.ip),
  owner_id = COALESCE(EXCLUDED.owner_id, pc_settings.owner_id)\<close>
\<close>

definition upsert_pc :: "string \<Rightarrow> string \<Rightarrow> nat \<Rightarrow> string option \<Rightarrow> int option \<Rightarrow> world \<Rightarrow> world" where
  "upsert_pc k nm t ipv ownerId w =
     (if select_pc w k = []
      then w\<lparr>pc_settings := pc_settings w @
                [\<lparr>pc_id = k, name = Some nm, last_seen = Some t, owner_id = ownerId, ip = ipv,
                  last_status = None, last_status_at = None\<rparr>]\<rparr>
      else w\<lparr>pc_settings :=
               map (\<lambda>row. if pc_id row = k
                          then row\<lparr>name := Some nm, last_seen := Some t,
                                   ip := coalesce ipv (ip row),
                                   owner_id := coalesce ownerId (owner_id row)\<rparr>
                          else row)
                   (pc_settings w)\<rparr>)"

text \<open>
  The upsert of \<^verbatim>\<open>POST /api/register-pc\<close>, which overwrites owner and ip:
  \<^verbatim>\<open>DO UPDATE SET name = EXCLUDED.name, last_seen = EXCLUDED.last_seen,
  owner_id = EXCLUDED.owner_id, ip = EXCLUDED.ip\<close>
\<close>

definition upsert_pc_http :: "string \<Rightarrow> string \<Rightarrow> nat \<Rightarrow> int option \<Rightarrow> string option \<Rightarrow> world \<Rightarrow> world" where
  "upsert_pc_http k nm t ownerId ipv w =
     (if select_pc w k = []
      then w\<lparr>pc_settings := pc_settings w @
                [\<lparr>pc_id = k, name = Some nm, last_seen = Some t, owner_id = ownerId, ip = ipv,
                  last_status = None, last_status_at = None\<rparr>]\<rparr>
      else w\<lparr>pc_settings :=
               map (\<lambda>row. if pc_id row = k
                          then row\<lparr>name := Some nm, last_seen := Some t, owner_id := ownerId, ip := ipv\<rparr>
                          else row)
                   (pc_settings w)\<rparr>)"

text \<open>
  \<^verbatim>\<open>SELECT id, from_time as from, to_time as to, days FROM block_periods
  WHERE user_id = $1 ORDER BY id DESC\<close>
\<close>

definition select_periods :: "world \<Rightarrow> int \<Rightarrow> period_row list" where
  "select_periods w u =
     rev (sort_key period_id (filter (\<lambda>p. user_id p = Some u) (block_periods w)))"

section \<open>Socket handlers\<close>

text \<open>
  A handler is \<^verbatim>\<open>async\<close>: it runs without interruption up to an \<^verbatim>\<open>await\<close> on the store,
  and other events are taken up while it waits. The model has this for the first wait
  of \<^verbatim>\<open>register_pc\<close>, the only place where a socket handler tests a field of an entry
  before a wait and writes it after: the status reports taken up during that wait are a
  parameter of the handler. Every other wait of a socket handler is taken without
  another event in between (\<^verbatim>\<open>pc_status\<close> and \<^verbatim>\<open>disconnect\<close> write the entry before their
  first wait). In the model the store answers the queries in the order in which they
  were sent. What a store query that
  fails does is in the model: each handler takes one flag per query, and a set flag
  takes the \<^verbatim>\<open>catch\<close> branch of that query.
\<close>

text \<open>Writing the fields of an entry object in place.\<close>

definition set_entry :: "nat \<Rightarrow> (conn \<Rightarrow> conn) \<Rightarrow> world \<Rightarrow> world" where
  "set_entry r f w = w\<lparr>heap := (heap w)(r := f (heap w r))\<rparr>"

text \<open>\<^verbatim>\<open>socket.pcId = k\<close>\<close>

definition tag_socket :: "string \<Rightarrow> string \<Rightarrow> world \<Rightarrow> world" where
  "tag_socket sid k w = w\<lparr>socket_pcId := (socket_pcId w)(sid := Some k)\<rparr>"

text \<open>\<^verbatim>\<open>Object.keys(pcConnections).find(k => pcConnections[k].socketId === socket.id)\<close>\<close>

definition find_by_socket :: "world \<Rightarrow> string \<Rightarrow> string option" where
  "find_by_socket w sid =
     map_option fst (List.find (\<lambda>(k, r). socketId (heap w r) = Some sid) (pcConnections w))"

record status_msg =
  m_id :: "string option"
  m_status :: "string option"

record status_faults =
  write_fails :: bool
  broadcast_read_fails :: bool

text \<open>
  \<^verbatim>\<open>socket.on('pc_status', ...)\<close> on socket \<open>sid\<close> at time \<open>now\<close>. A \<^verbatim>\<open>null\<close> payload
  is a payload without fields (\<^verbatim>\<open>data && data.id\<close>). \<open>incomingId\<close> is the id the
  report resolves to, \<open>None\<close> when \<^verbatim>\<open>if (!incomingId) return\<close> drops the report. The
  result of the handler is the new state and what was emitted.
\<close>

definition incomingId :: "string \<Rightarrow> status_msg \<Rightarrow> world \<Rightarrow> string option" where
  "incomingId sid data w =
     or_null (if truthy (m_id data) then m_id data
              else or_str (find_by_socket w sid) (socket_pcId w sid))"

text \<open>
  \<^verbatim>\<open>data && data.status ? data.status : pcConnections[incomingId].status || 'Unknown'\<close>
\<close>

definition reported_status :: "status_msg \<Rightarrow> conn \<Rightarrow> string option" where
  "reported_status data c =
     (if truthy (m_status data) then m_status data else Some (or_lit (status c) ''Unknown''))"

definition pc_status :: "string \<Rightarrow> nat \<Rightarrow> status_faults \<Rightarrow> status_msg \<Rightarrow> world \<Rightarrow> world \<times> emit list" where
  "pc_status sid now faults data w =
     (case incomingId sid data w of
           None \<Rightarrow> (w, [])
         | Some k \<Rightarrow>
             let (r, w1) = ensure_conn w k;
                 st = reported_status data (heap w1 r);
                 w2 = set_entry r (\<lambda>c. c\<lparr>status := st, lastStatusAt := Some now,
                                          connected := True, socketId := Some sid\<rparr>) w1;
                 w3 = tag_socket sid k w2;
                 w4 = (if write_fails faults then w3
                       else update_status k (status (heap w3 r)) (lastStatusAt (heap w3 r)) w3)
             in (w4, broadcastUpdate (broadcast_read_fails faults) w4))"


record register_msg =
  g_id :: string
  g_name :: "string option"
  g_clientType :: "string option"
  g_localIp :: "string option"

record register_faults =
  hydrate_fails :: bool
  lookup_fails :: bool
  upsert_fails :: bool
  owner_read_fails :: bool
  periods_read_fails :: bool

text \<open>
  A status report that arrives while another handler waits for the store: the socket it
  comes from, the time at which it is taken up, the faults of its own queries and its
  payload. \<open>take_up\<close> handles such reports one after the other; what they emit is
  theirs and is not listed with the waiting handler's emits.
\<close>

record racing_report =
  h_socket :: string
  h_now :: nat
  h_faults :: status_faults
  h_msg :: status_msg

definition take_up :: "racing_report list \<Rightarrow> world \<Rightarrow> world" where
  "take_up reports w =
     foldl (\<lambda>v q. fst (pc_status (h_socket q) (h_now q) (h_faults q) (h_msg q) v)) w reports"

text \<open>
  The first part of \<^verbatim>\<open>register_pc\<close>: the entry is created or merged into, and a status
  is loaded from the store only when the entry has none.
  \<^verbatim>\<open>if (!pcConnections[id].status) { try { const { rows } = await db.query(...);
  if (rows && rows[0] && rows[0].last_status) pcConnections[id].status = rows[0].last_status \<close>:
  the test is made before the wait, the query is answered from the store as it is when
  the query is sent, the reports in \<open>racing\<close> are taken up during the wait, and the
  assignment after the wait looks the entry up again and does not repeat the test (an
  entry that is gone makes the assignment throw inside the \<^verbatim>\<open>try\<close>). When the entry has
  a status already, this part has no wait: the socket is tagged at once and the reports
  are taken up during the next wait of the handler. With \<open>racing = []\<close> the handler
  runs to its end with no other event in between.
\<close>

definition register_entry ::
  "string \<Rightarrow> register_faults \<Rightarrow> string \<Rightarrow> racing_report list \<Rightarrow> world \<Rightarrow> nat \<times> world" where
  "register_entry sid faults k racing w =
     (let (r, w1) = ensure_conn w k;
          w2 = set_entry r (\<lambda>c. c\<lparr>connected := True, socketId := Some sid\<rparr>) w1
      in if truthy (status (heap w2 r))
         then (r, take_up racing (tag_socket sid k w2))
         else
           let rows = select_pc w2 k;
               w3 = take_up racing w2;
               w4 = (if hydrate_fails faults then w3
                     else case first_row rows of
                            None \<Rightarrow> w3
                          | Some row \<Rightarrow>
                              if truthy (last_status row)
                              then (case conn_ref w3 k of
                                      None \<Rightarrow> w3
                                    | Some r' \<Rightarrow> set_entry r' (\<lambda>c. c\<lparr>status := last_status row\<rparr>) w3)
                              else w3)
           in (r, tag_socket sid k w4))"

text \<open>
  The \<^verbatim>\<open>try\<close> block of \<^verbatim>\<open>register_pc\<close> that resolves the identity by name, writes the
  row and moves the entry. It returns the id the rest of the handler uses
  (\<^verbatim>\<open>data.id\<close>). A failing query leaves the block at once.
\<close>

definition register_merge ::
  "string \<Rightarrow> int option \<Rightarrow> nat \<Rightarrow> register_faults \<Rightarrow> register_msg \<Rightarrow> nat \<Rightarrow> world \<Rightarrow> string \<times> world" where
  "register_merge sid session_user now faults data r w =
     (if truthy (g_name data) \<and> lookup_fails faults then (g_id data, w)
      else
        let existing = (case or_null (g_name data) of
                          None \<Rightarrow> None
                        | Some nm \<Rightarrow> find_by_name w nm);
            existingPcId = map_option pc_id existing;
            existingOwnerId = (case existing of None \<Rightarrow> None | Some row \<Rightarrow> owner_id row);
            ownerId = (if truthy existingPcId \<and> truthy_num existingOwnerId then existingOwnerId
                       else or_null_num session_user);
            finalPcId = or_lit existingPcId (g_id data)
        in if upsert_fails faults then (g_id data, w)
           else
             let w1 = upsert_pc finalPcId (or_lit (g_name data) (g_id data)) now
                        (or_null (g_localIp data)) ownerId w
             in case or_null existingPcId of
                  None \<Rightarrow> (g_id data, w1)
                | Some e \<Rightarrow>
                    if e \<noteq> g_id data
                    then (e, tag_socket sid e
                               (w1\<lparr>pcConnections :=
                                     AList.delete (g_id data) (AList.update e r (pcConnections w1))\<rparr>))
                    else (g_id data, w1))"

text \<open>The last part of \<^verbatim>\<open>register_pc\<close>: the owner's schedule is pushed to the device.\<close>

definition register_schedule :: "register_faults \<Rightarrow> string \<Rightarrow> world \<Rightarrow> emit list" where
  "register_schedule faults pcId w =
     (if owner_read_fails faults then []
      else case first_row (select_pc w pcId) of
             None \<Rightarrow> []
           | Some row \<Rightarrow>
               (case or_null_num (owner_id row) of
                  None \<Rightarrow> []
                | Some ownerId \<Rightarrow>
                    if periods_read_fails faults then []
                    else (case live_socket w pcId of
                            None \<Rightarrow> []
                          | Some s \<Rightarrow>
                              [ToRoom (SocketRoom s) (ScheduleUpdate (select_periods w ownerId))])))"

text \<open>
  \<^verbatim>\<open>socket.on('register_pc', ...)\<close> on socket \<open>sid\<close>, whose session carries
  \<open>session_user\<close>; \<open>racing\<close> are the status reports taken up during the handler's
  first wait on the store. (A status report neither removes nor replaces an entry
  object, so the reference \<open>r\<close> still is \<^verbatim>\<open>pcConnections[id]\<close> after the wait.)
\<close>

definition register_pc ::
  "string \<Rightarrow> int option \<Rightarrow> nat \<Rightarrow> register_faults \<Rightarrow> register_msg \<Rightarrow> racing_report list \<Rightarrow> world \<Rightarrow>
     world \<times> emit list" where
  "register_pc sid session_user now faults data racing w =
     (if g_clientType data \<noteq> Some ''pc_app'' then (w, [])
      else
        let (r, w1) = register_entry sid faults (g_id data) racing w;
            (pcId, w2) = register_merge sid session_user now faults data r w1
        in (w2, register_schedule faults pcId w2))"

text \<open>
  An announce is renamed when the lookup by name finds a row under another id: the case
  in which \<^verbatim>\<open>register_pc\<close> moves the entry (\<^verbatim>\<open>existingPcId && existingPcId !== id\<close>).
\<close>

definition renamed :: "world \<Rightarrow> register_msg \<Rightarrow> bool" where
  "renamed w data =
     (case or_null (g_name data) of
        None \<Rightarrow> False
      | Some nm \<Rightarrow>
          (case find_by_name w nm of
             None \<Rightarrow> False
           | Some row \<Rightarrow> pc_id row \<noteq> [] \<and> pc_id row \<noteq> g_id data))"

section \<open>Schedule pushes over HTTP\<close>

record notify_faults =
  periods_query_fails :: bool
  pcs_query_fails :: bool

text \<open>
  \<^verbatim>\<open>notifyScheduleChangeForUser(userId)\<close>, called after a block period is created,
  changed or deleted. An exception of either query ends the function with nothing sent.
\<close>

definition notifyScheduleChangeForUser :: "notify_faults \<Rightarrow> int \<Rightarrow> world \<Rightarrow> emit list" where
  "notifyScheduleChangeForUser faults userId w =
     (if periods_query_fails faults \<or> pcs_query_fails faults then []
      else
        let rows = select_periods w userId;
            pcs = filter (\<lambda>row. owner_id row = Some userId) (pc_settings w)
        in concat (map (\<lambda>row. case live_socket w (pc_id row) of
                                 None \<Rightarrow> []
                               | Some s \<Rightarrow>
                                   if rows \<noteq> [] then [ToRoom (SocketRoom s) (ScheduleUpdate rows)]
                                   else [])
                       pcs)
           @ (if rows \<noteq> [] then [ToRoom (Dashboard userId) (ScheduleUpdate rows)] else []))"

record http_register_msg =
  b_id :: "string option"
  b_name :: "string option"
  b_localIp :: "string option"
  b_clientType :: "string option"

record http_register_faults =
  save_fails :: bool
  schedule_read_fails :: bool
  list_read_fails :: bool

text \<open>\<^verbatim>\<open>POST /api/register-pc\<close>: the answer, the new state and what was emitted.\<close>

definition api_register_pc ::
  "int option \<Rightarrow> nat \<Rightarrow> http_register_faults \<Rightarrow> http_register_msg \<Rightarrow> world
     \<Rightarrow> response \<times> world \<times> emit list" where
  "api_register_pc session_user now faults body w =
     (case requireAuth session_user of
        None \<Rightarrow> (Unauthorized, w, [])
      | Some userId \<Rightarrow>
          (case or_null (b_id body) of
             None \<Rightarrow> (BadRequest, w, [])
           | Some k \<Rightarrow>
               if b_clientType body = Some ''pc_app'' \<and> save_fails faults then (ServerError, w, [])
               else
                 let w1 = (if b_clientType body = Some ''pc_app''
                           then upsert_pc_http k (or_lit (b_name body) k) now (Some userId)
                                  (or_null (b_localIp body)) w
                           else w);
                     rows = select_periods w1 userId;
                     schedule =
                       (if schedule_read_fails faults \<or> b_clientType body \<noteq> Some ''pc_app'' then []
                        else case live_socket w1 k of
                               None \<Rightarrow> []
                             | Some s \<Rightarrow>
                                 if rows \<noteq> [] then [ToRoom (SocketRoom s) (ScheduleUpdate rows)]
                                 else [])
                 in (Success, w1, schedule @ broadcastUpdate (list_read_fails faults) w1)))"

section \<open>The probe (GET /api/pc/:id/probe)\<close>

text \<open>
  The probe waits on timers, and other handlers run while it waits. One sleep of the
  probe is a \<open>tick\<close>: how late the 100 ms timer fires, and what the handlers that ran
  in between did to the state. The environment of a polling loop gives the tick of
  each sleep.
\<close>

record tick =
  late :: nat
  act :: "world \<Rightarrow> world"

text \<open>The state after the first \<open>n\<close> sleeps of a loop in which the probe itself writes nothing.\<close>

primrec run_ticks :: "(nat \<Rightarrow> tick) \<Rightarrow> nat \<Rightarrow> world \<Rightarrow> world" where
  "run_ticks env 0 w = w"
| "run_ticks env (Suc n) w = act (env n) (run_ticks env n w)"

text \<open>
  The events of the fast path. A \<^verbatim>\<open>null\<close> payload behaves as a payload without fields
  in both listeners. An \<open>arrival\<close> is one step of the environment during the wait for
  the reply: the time since the step before, what the handlers of the server did at
  that step (the server's own \<^verbatim>\<open>pc_status\<close> handler is registered first and has run
  when the probe's listener sees the event), and the event on the probed socket, if
  the step is one.
\<close>

record reply_msg =
  y_probeId :: "string option"
  y_status :: "string option"
  y_lastStatusAt :: "nat option"

datatype sock_event = StatusReplyEv reply_msg | PcStatusEv status_msg

record arrival =
  after :: nat
  effect :: "world \<Rightarrow> world"
  event :: "sock_event option"

record probe_reply =
  rp_status :: "string option"
  rp_lastStatusAt :: nat

definition or_ms :: "nat option \<Rightarrow> nat \<Rightarrow> nat" where
  "or_ms a d = (case a of None \<Rightarrow> d | Some n \<Rightarrow> if n \<noteq> 0 then n else d)"

text \<open>
  The rescan loop, first check:
  \<^verbatim>\<open>if (pcConnections[pcId] && pcConnections[pcId].socketId)\<close>
\<close>

definition scan_registry :: "world \<Rightarrow> string \<Rightarrow> nat option" where
  "scan_registry w pcId =
     (case conn_ref w pcId of
        None \<Rightarrow> None
      | Some r \<Rightarrow> if truthy (socketId (heap w r)) then Some r else None)"

text \<open>
  Second check: \<^verbatim>\<open>for (const [sid, sock] of io.sockets.sockets) if (sock.pcId === pcId)\<close>,
  the first live socket that carries the id.
\<close>

definition scan_sockets :: "world \<Rightarrow> string \<Rightarrow> string option" where
  "scan_sockets w pcId = List.find (\<lambda>sid. socket_pcId w sid = Some pcId) (sockets w)"

text \<open>
  \<^verbatim>\<open>conn = pcConnections[pcId] = pcConnections[pcId] || {}; conn.connected = true;
  conn.socketId = sid; conn.status = conn.status || 'Unknown';\<close>
\<close>

definition adopt_socket :: "string \<Rightarrow> string \<Rightarrow> world \<Rightarrow> nat \<times> world" where
  "adopt_socket pcId sid w =
     (let (r, w1) = ensure_conn w pcId
      in (r, set_entry r (\<lambda>c. c\<lparr>connected := True, socketId := Some sid,
                                status := Some (or_lit (status c) ''Unknown'')\<rparr>) w1))"

text \<open>
  The rescan loop
  \<^verbatim>\<open>while (!foundConn && (Date.now() - scanStart) < scanTimeoutMs)\<close>.
  The arguments after \<open>scanStart\<close> are the variables \<^verbatim>\<open>conn\<close> (a reference) and
  \<^verbatim>\<open>foundConn\<close>, the clock, and the number of sleeps so far. It returns them with
  the state.
\<close>

function scan ::
  "string \<Rightarrow> nat \<Rightarrow> nat option \<Rightarrow> bool \<Rightarrow> nat \<Rightarrow> nat \<Rightarrow> (nat \<Rightarrow> tick) \<Rightarrow> world
     \<Rightarrow> nat option \<times> bool \<times> nat \<times> nat \<times> world" where
  "scan pcId scanStart conn foundConn clock n env w =
     (if \<not> foundConn \<and> clock - scanStart < 2000
      then (case scan_registry w pcId of
              Some r \<Rightarrow> (Some r, True, clock, n, w)
            | None \<Rightarrow>
                (case scan_sockets w pcId of
                   Some sid \<Rightarrow>
                     (Some (fst (adopt_socket pcId sid w)), True, clock, n,
                      snd (adopt_socket pcId sid w))
                 | None \<Rightarrow>
                     scan pcId scanStart conn False (clock + 100 + late (env n)) (Suc n) env
                       (act (env n) w)))
      else (conn, foundConn, clock, n, w))"
  by pat_completeness auto
termination
  by (relation "measure (\<lambda>(pcId, scanStart, conn, foundConn, clock, n, env, w).
                           scanStart + 2000 - clock)") auto

text \<open>
  The fast path. Both listeners are one-shot (\<^verbatim>\<open>sock.once\<close>): the first
  \<^verbatim>\<open>status_reply\<close> and the first \<^verbatim>\<open>pc_status\<close> on the socket use them up, whether
  they resolve the promise or not. A step that comes 3000 ms or more after the request
  loses against the timer. The result is \<^verbatim>\<open>replyPayload\<close>, the clock and the state.
\<close>

fun fast_wait ::
  "string \<Rightarrow> string \<Rightarrow> nat \<Rightarrow> bool \<Rightarrow> bool \<Rightarrow> nat \<Rightarrow> nat \<Rightarrow> arrival list \<Rightarrow> world
     \<Rightarrow> probe_reply option \<times> nat \<times> world" where
  "fast_wait pcId probeId r reply_armed status_armed t0 elapsed [] w = (None, t0 + 3000, w)"
| "fast_wait pcId probeId r reply_armed status_armed t0 elapsed (a # rest) w =
     (if 3000 \<le> elapsed + after a then (None, t0 + 3000, w)
      else
        (case event a of
           None \<Rightarrow>
             fast_wait pcId probeId r reply_armed status_armed t0 (elapsed + after a) rest
               (effect a w)
         | Some (StatusReplyEv p) \<Rightarrow>
             if reply_armed \<and> y_probeId p = Some probeId
             then (Some \<lparr>rp_status = y_status p,
                         rp_lastStatusAt = or_ms (y_lastStatusAt p) (t0 + elapsed + after a)\<rparr>,
                   t0 + elapsed + after a, effect a w)
             else fast_wait pcId probeId r False status_armed t0 (elapsed + after a) rest
                    (effect a w)
         | Some (PcStatusEv p) \<Rightarrow>
             if status_armed \<and> (m_id p = Some pcId \<and> truthy (m_id p) \<or> truthy (m_status p))
             then (Some \<lparr>rp_status =
                           Some (or_lit (or_str (m_status p) (status (heap (effect a w) r)))
                                   ''Unknown''),
                         rp_lastStatusAt = t0 + elapsed + after a\<rparr>,
                   t0 + elapsed + after a, effect a w)
             else fast_wait pcId probeId r reply_armed False t0 (elapsed + after a) rest
                    (effect a w)))"

text \<open>
  The legacy fallback
  \<^verbatim>\<open>while (elapsed < timeoutMs) { const last = conn.lastStatusAt || 0;
  if (last >= start) break; await sleep(intervalMs); elapsed += intervalMs; }\<close>.
  It returns whether the loop was left by \<^verbatim>\<open>break\<close>, the number of sleeps and the state.
\<close>

function legacy_poll ::
  "nat \<Rightarrow> nat \<Rightarrow> nat \<Rightarrow> nat \<Rightarrow> (nat \<Rightarrow> tick) \<Rightarrow> world \<Rightarrow> bool \<times> nat \<times> world" where
  "legacy_poll r start elapsed n env w =
     (if elapsed < 3000
      then (if start \<le> or_ms (lastStatusAt (heap w r)) 0 then (True, n, w)
            else legacy_poll r start (elapsed + 100) (Suc n) env (act (env n) w))
      else (False, n, w))"
  by pat_completeness auto
termination
  by (relation "measure (\<lambda>(r, start, elapsed, n, env, w). 3000 - elapsed)") auto

record probe_faults =
  owner_check_fails :: bool
  persisted_read_fails :: bool

text \<open>
  How a probe ended. Of the result, \<open>resp\<close> is the answer sent to the caller,
  \<open>after_world\<close> the state and \<open>emitted\<close> what was sent to sockets. The other fields
  record the path the handler took: the number of sleeps of the rescan and the clock
  when it ended, the entry object \<^verbatim>\<open>conn\<close> the probe went on with, the number of sleeps
  of the legacy loop, and the phase that ended the probe.
\<close>

datatype probe_phase = Rejected | Unresolved | FastReply | LegacyAdvance | NoAnswer

record probe_result =
  resp :: response
  after_world :: world
  emitted :: "emit list"
  scan_sleeps :: nat
  scan_end :: nat
  conn_used :: "nat option"
  poll_sleeps :: nat
  phase :: probe_phase

text \<open>
  The last statement of the handler:
  \<^verbatim>\<open>res.json({ status: conn.status || 'Unknown', lastStatusAt: conn.lastStatusAt || null,
  probed: true })\<close>
\<close>

definition probed_response :: "conn \<Rightarrow> response" where
  "probed_response c = Probed (or_lit (status c) ''Unknown'') (or_null_ms (lastStatusAt c))"

text \<open>The fallback when no live entry was found: the persisted status, or 503.\<close>

definition probe_fallback :: "probe_faults \<Rightarrow> string \<Rightarrow> world \<Rightarrow> response" where
  "probe_fallback faults pcId w =
     (if persisted_read_fails faults then Offline
      else case first_row (select_pc w pcId) of
             None \<Rightarrow> Offline
           | Some row \<Rightarrow>
               if truthy (last_status row)
               then Stale (or_lit (last_status row) []) (last_status_at row)
               else Offline)"

text \<open>
  The probe of a live entry \<open>r\<close> (\<^verbatim>\<open>conn\<close>) from \<^verbatim>\<open>const start = Date.now()\<close> on.
  \<open>sleeps\<close> is the number of sleeps of the rescan.
\<close>

definition probe_live ::
  "string \<Rightarrow> string \<Rightarrow> nat \<Rightarrow> nat \<Rightarrow> nat \<Rightarrow> arrival list \<Rightarrow> (nat \<Rightarrow> tick) \<Rightarrow> world
     \<Rightarrow> probe_result" where
  "probe_live pcId probeId r start sleeps fast_env poll_env w =
     (let sock = (case socketId (heap w r) of
                    None \<Rightarrow> None
                  | Some s \<Rightarrow> if s \<in> set (sockets w) then Some s else None);
          request = (case sock of None \<Rightarrow> [] | Some s \<Rightarrow> [ToSocket s (StatusRequest probeId)]);
          (replyPayload, clock, w1) =
             (case sock of
                None \<Rightarrow> (None, start, w)
              | Some s \<Rightarrow> fast_wait pcId probeId r True True start 0 fast_env w)
      in case replyPayload of
           Some rp \<Rightarrow>
             let w2 = set_entry r
                        (\<lambda>c. c\<lparr>status := Some (or_lit (or_str (rp_status rp) (status c)) ''Unknown''),
                               lastStatusAt :=
                                 Some (if rp_lastStatusAt rp \<noteq> 0 then rp_lastStatusAt rp else clock)\<rparr>)
                        w1
             in \<lparr>resp = probed_response (heap w2 r), after_world = w2, emitted = request,
                 scan_sleeps = sleeps, scan_end = start, conn_used = Some r, poll_sleeps = 0,
                 phase = FastReply\<rparr>
         | None \<Rightarrow>
             let (advanced, polls, w2) = legacy_poll r start 0 0 poll_env w1
             in \<lparr>resp = probed_response (heap w2 r), after_world = w2, emitted = request,
                 scan_sleeps = sleeps, scan_end = start, conn_used = Some r, poll_sleeps = polls,
                 phase = (if advanced then LegacyAdvance else NoAnswer)\<rparr>)"

text \<open>
  The handler. \<open>clock\<close> is the time when the rescan starts, \<open>probeId\<close> the random
  token. A failure of the ownership query is the outer \<^verbatim>\<open>catch\<close> (500).
\<close>

definition probe ::
  "int option \<Rightarrow> string \<Rightarrow> string \<Rightarrow> nat \<Rightarrow> probe_faults \<Rightarrow> (nat \<Rightarrow> tick) \<Rightarrow> arrival list
     \<Rightarrow> (nat \<Rightarrow> tick) \<Rightarrow> world \<Rightarrow> probe_result" where
  "probe session_user pcId probeId clock faults scan_env fast_env poll_env w =
     (let rejected = (\<lambda>answer. \<lparr>resp = answer, after_world = w, emitted = [],
                                scan_sleeps = 0, scan_end = clock, conn_used = None,
                                poll_sleeps = 0, phase = Rejected\<rparr>)
      in case requireAuth session_user of
           None \<Rightarrow> rejected Unauthorized
         | Some userId \<Rightarrow>
             if owner_check_fails faults then rejected ServerError
             else
               (case first_row (select_pc w pcId) of
                  None \<Rightarrow> rejected Forbidden
                | Some row \<Rightarrow>
                    if owner_id row \<noteq> Some userId then rejected Forbidden
                    else
                      let conn0 = conn_ref w pcId;
                          found0 = (case conn0 of None \<Rightarrow> False | Some r \<Rightarrow> live (heap w r));
                          (conn, foundConn, start, sleeps, w1) =
                             scan pcId clock conn0 found0 clock 0 scan_env w
                      in (case (case conn of
                                  None \<Rightarrow> None
                                | Some r \<Rightarrow> if live (heap w1 r) then Some r else None) of
                            None \<Rightarrow>
                              \<lparr>resp = probe_fallback faults pcId w1, after_world = w1, emitted = [],
                               scan_sleeps = sleeps, scan_end = start, conn_used = conn,
                               poll_sleeps = 0, phase = Unresolved\<rparr>
                          | Some r \<Rightarrow>
                              probe_live pcId probeId r start sleeps fast_env poll_env w1)))"

section \<open>The merged view as the specification words it\<close>



section \<open>Example states\<close>

text \<open>
  A store with one device of owner 7 that last reported \<open>Locked\<close> and one unowned
  device; nothing is connected yet.
\<close>

definition lab_row :: pc_row where
  "lab_row = \<lparr>pc_id = ''tmp1'', name = Some ''Lab-PC'', last_seen = Some 1000, owner_id = Some 7,
              ip = None, last_status = Some ''Locked'', last_status_at = Some 900\<rparr>"

definition spare_row :: pc_row where
  "spare_row = \<lparr>pc_id = ''spare'', name = Some ''Spare'', last_seen = Some 500, owner_id = None,
                ip = None, last_status = None, last_status_at = None\<rparr>"

definition store0 :: world where
  "store0 = \<lparr>pc_settings = [lab_row, spare_row], block_periods = [], pcConnections = [],
             heap = (\<lambda>r. empty_conn), next_ref = 0, sockets = [''s1''],
             socket_pcId = (\<lambda>sid. None)\<rparr>"

definition idle :: "nat \<Rightarrow> tick" where
  "idle n = \<lparr>late = 0, act = (\<lambda>w. w)\<rparr>"

definition no_probe_faults :: probe_faults where
  "no_probe_faults = \<lparr>owner_check_fails = False, persisted_read_fails = False\<rparr>"

definition no_register_faults :: register_faults where
  "no_register_faults = \<lparr>hydrate_fails = False, lookup_fails = False, upsert_fails = False,
                          owner_read_fails = False, periods_read_fails = False\<rparr>"

definition announce_lab :: register_msg where
  "announce_lab = \<lparr>g_id = ''tmp1'', g_name = Some ''Lab-PC'', g_clientType = Some ''pc_app'',
                    g_localIp = None\<rparr>"

definition no_status_faults :: status_faults where
  "no_status_faults = \<lparr>write_fails = False, broadcast_read_fails = False\<rparr>"

definition ghost_report :: status_msg where
  "ghost_report = \<lparr>m_id = Some ''ghost'', m_status = Some ''Locked''\<rparr>"

definition lab_report :: status_msg where
  "lab_report = \<lparr>m_id = Some ''tmp1'', m_status = Some ''Unlocked''\<rparr>"

definition write_fault :: status_faults where
  "write_fault = \<lparr>write_fails = True, broadcast_read_fails = False\<rparr>"

definition bare_report :: status_msg where
  "bare_report = \<lparr>m_id = None, m_status = Some ''Unlocked''\<rparr>"

definition announce_renamed :: register_msg where
  "announce_renamed = \<lparr>g_id = ''tmp2'', g_name = Some ''Lab-PC'', g_clientType = Some ''pc_app'',
                        g_localIp = None\<rparr>"


definition unknown_report :: status_msg where
  "unknown_report = \<lparr>m_id = Some ''tmp1'', m_status = None\<rparr>"



text \<open>
  The report \<open>Unlocked\<close> of device \<open>tmp1\<close> on socket \<open>s1\<close>, taken up at time 2000 while
  another handler waits for the store.
\<close>

definition racing_lab :: racing_report where
  "racing_lab = \<lparr>h_socket = ''s1'', h_now = 2000, h_faults = no_status_faults, h_msg = lab_report\<rparr>"

definition tmp2_report :: status_msg where
  "tmp2_report = \<lparr>m_id = Some ''tmp2'', m_status = Some ''Locked''\<rparr>"




section \<open>Properties of the merged view and the broadcast\<close>



lemma object_keys_set: "set (object_keys obj) = fst ` set obj"
  by (auto simp: object_keys_def)

lemma byOwner_fold_sound:
  "map_of (foldl (byOwner_push w) acc rows) u = Some l \<Longrightarrow> d \<in> set l \<Longrightarrow>
     (\<exists>l0. map_of acc u = Some l0 \<and> d \<in> set l0) \<or>
     (\<exists>row \<in> set rows. owner_id row = Some u \<and> u \<noteq> 0 \<and> d = view_of w row)"
proof (induction rows arbitrary: acc)
  case Nil
  then show ?case by simp
next
  case (Cons r rows)
  from Cons.IH[of "byOwner_push w acc r"] Cons.prems
  have "(\<exists>l0. map_of (byOwner_push w acc r) u = Some l0 \<and> d \<in> set l0) \<or>
     (\<exists>row \<in> set rows. owner_id row = Some u \<and> u \<noteq> 0 \<and> d = view_of w row)" by simp
  then show ?case
    by (auto simp: byOwner_push_def or_null_num_def truthy_num_def update_conv' split: option.splits if_splits)
qed




lemma key_iff_map_of: "k \<in> fst ` set al \<longleftrightarrow> (\<exists>v. map_of al k = Some v)"
  using map_of_eq_None_iff[of al k] by auto

lemma broadcast_emit_iff:
  "e \<in> set (broadcastUpdate False w) \<longleftrightarrow>
     (\<exists>u l. e = ToRoom (Dashboard u) (PcUpdate l) \<and> map_of (foldl (byOwner_push w) [] (pc_settings w)) u = Some l)"
proof -
  define al where "al = foldl (byOwner_push w) [] (pc_settings w)"
  have "e \<in> set (broadcastUpdate False w) \<longleftrightarrow>
        (\<exists>u \<in> fst ` set al. e = ToRoom (Dashboard u) (PcUpdate (case map_of al u of None \<Rightarrow> [] | Some l \<Rightarrow> l)))"
    unfolding broadcastUpdate_def al_def Let_def by (simp add: object_keys_set image_iff)
  also have "\<dots> \<longleftrightarrow> (\<exists>u l. e = ToRoom (Dashboard u) (PcUpdate l) \<and> map_of al u = Some l)"
  proof
    assume "\<exists>u \<in> fst ` set al. e = ToRoom (Dashboard u) (PcUpdate (case map_of al u of None \<Rightarrow> [] | Some l \<Rightarrow> l))"
    then obtain u where u: "u \<in> fst ` set al"
      "e = ToRoom (Dashboard u) (PcUpdate (case map_of al u of None \<Rightarrow> [] | Some l \<Rightarrow> l))" by blast
    from u(1) obtain v where "map_of al u = Some v" using key_iff_map_of[of u al] by blast
    with u(2) show "\<exists>u l. e = ToRoom (Dashboard u) (PcUpdate l) \<and> map_of al u = Some l" by simp
  next
    assume "\<exists>u l. e = ToRoom (Dashboard u) (PcUpdate l) \<and> map_of al u = Some l"
    then obtain u l where ul: "e = ToRoom (Dashboard u) (PcUpdate l)" "map_of al u = Some l" by blast
    from ul(2) have "u \<in> fst ` set al" using key_iff_map_of[of u al] by blast
    with ul show "\<exists>u \<in> fst ` set al. e = ToRoom (Dashboard u) (PcUpdate (case map_of al u of None \<Rightarrow> [] | Some l \<Rightarrow> l))"
      by (intro bexI[of _ u]) simp_all
  qed
  finally show ?thesis unfolding al_def .
qed


lemma broadcast_store0:
  "broadcastUpdate False store0 = [ToRoom (Dashboard 7) (PcUpdate [view_of store0 lab_row])]"
  by (simp add: broadcastUpdate_def store0_def lab_row_def spare_row_def byOwner_push_def
        or_null_num_def truthy_num_def object_keys_def)







text \<open>
  C5. Every device in a list that the broadcast emits is the view of a persisted row
  whose \<^verbatim>\<open>owner_id\<close> is set, and the list goes to the dashboard room of that owner: a
  row without owner is in no emitted list.
\<close>

theorem broadcast_only_owned:
  assumes "ToRoom r (PcUpdate l) \<in> set (broadcastUpdate read_fails w)" and "d \<in> set l"
  shows "\<exists>row \<in> set (pc_settings w). \<exists>u. d = view_of w row \<and> owner_id row = Some u \<and> u \<noteq> 0 \<and>
           r = Dashboard u \<and> v_ownerId d = Some u"
proof -
  from assms(1) have "read_fails = False" by (auto simp: broadcastUpdate_def)
  with assms(1) have "ToRoom r (PcUpdate l) \<in> set (broadcastUpdate False w)" by simp
  then obtain u where u: "r = Dashboard u"
    "map_of (foldl (byOwner_push w) [] (pc_settings w)) u = Some l"
    unfolding broadcast_emit_iff by auto
  from byOwner_fold_sound[OF u(2) assms(2)] obtain row where
    row: "row \<in> set (pc_settings w)" "owner_id row = Some u" "u \<noteq> 0" "d = view_of w row" by auto
  then have "v_ownerId d = Some u" by (simp add: view_of_def Let_def or_null_num_def truthy_num_def)
  with row u(1) show ?thesis by blast
qed


theorem broadcast_only_owned_witness:
  "ToRoom (Dashboard 7) (PcUpdate [view_of store0 lab_row]) \<in> set (broadcastUpdate False store0) \<and>
   view_of store0 lab_row \<in> set [view_of store0 lab_row] \<and>
   (\<exists>row \<in> set (pc_settings store0). \<exists>u. view_of store0 lab_row = view_of store0 row \<and>
       owner_id row = Some u \<and> u \<noteq> 0 \<and> Dashboard 7 = Dashboard u \<and>
       v_ownerId (view_of store0 lab_row) = Some u)"
proof -
  have h1: "ToRoom (Dashboard 7) (PcUpdate [view_of store0 lab_row]) \<in> set (broadcastUpdate False store0)"
    by (simp add: broadcast_store0)
  have h2: "view_of store0 lab_row \<in> set [view_of store0 lab_row]" by simp
  from broadcast_only_owned[OF h1 h2] h1 h2 show ?thesis by blast
qed

section \<open>The ownership check of the probe\<close>

text \<open>
  C10. When the store answers the ownership query and holds no row for the probed id,
  or a row of another owner (or of none), the probe of an authenticated caller is
  answered 403 and nothing else happens: the state is unchanged, nothing is emitted,
  and neither the rescan nor the polling loop sleeps once.
\<close>

theorem probe_forbidden_before_machinery:
  assumes "requireAuth session_user = Some userId"
    and "\<not> owner_check_fails faults"
    and "first_row (select_pc w pcId) = None \<or>
         (\<exists>row. first_row (select_pc w pcId) = Some row \<and> owner_id row \<noteq> Some userId)"
  shows "probe session_user pcId probeId clock faults scan_env fast_env poll_env w =
           \<lparr>resp = Forbidden, after_world = w, emitted = [], scan_sleeps = 0, scan_end = clock,
            conn_used = None, poll_sleeps = 0, phase = Rejected\<rparr>"
  using assms by (auto simp: probe_def Let_def)

theorem probe_forbidden_before_machinery_witness:
  "requireAuth (Some 8) = Some 8 \<and> \<not> owner_check_fails no_probe_faults \<and>
   first_row (select_pc store0 ''tmp1'') = Some lab_row \<and> owner_id lab_row \<noteq> Some 8 \<and>
   probe (Some 8) ''tmp1'' ''p1'' 5000 no_probe_faults idle [] idle store0 =
     \<lparr>resp = Forbidden, after_world = store0, emitted = [], scan_sleeps = 0, scan_end = 5000,
      conn_used = None, poll_sleeps = 0, phase = Rejected\<rparr>"
proof -
  have h1: "requireAuth (Some 8) = Some 8"
    by (simp add: requireAuth_def or_null_num_def truthy_num_def)
  have h2: "\<not> owner_check_fails no_probe_faults" by (simp add: no_probe_faults_def)
  have h3: "first_row (select_pc store0 ''tmp1'') = None \<or>
      (\<exists>row. first_row (select_pc store0 ''tmp1'') = Some row \<and> owner_id row \<noteq> Some 8)"
    by (simp add: first_row_def select_pc_def store0_def lab_row_def spare_row_def)
  have h4: "first_row (select_pc store0 ''tmp1'') = Some lab_row" "owner_id lab_row \<noteq> Some 8"
    by (simp_all add: first_row_def select_pc_def store0_def lab_row_def spare_row_def)
  from probe_forbidden_before_machinery[OF h1 h2 h3] h1 h2 h4 show ?thesis by blast
qed

section \<open>Schedule pushes\<close>

lemma broadcast_no_schedule: "ToRoom r (ScheduleUpdate rows) \<notin> set (broadcastUpdate rf w)"
  by (auto simp: broadcastUpdate_def Let_def)

lemma notify_never_empty:
  "ToRoom r (ScheduleUpdate rows) \<in> set (notifyScheduleChangeForUser faults u w) \<Longrightarrow> rows \<noteq> []"
  by (auto simp: notifyScheduleChangeForUser_def Let_def split: if_splits option.splits)

lemma http_register_never_empty:
  "ToRoom r (ScheduleUpdate rows) \<in> set (snd (snd (api_register_pc su now faults body w))) \<Longrightarrow> rows \<noteq> []"
  by (auto simp: api_register_pc_def Let_def broadcast_no_schedule split: if_splits option.splits)

text \<open>
  C8. The two lemmas above are the paths that suppress an empty schedule. The socket
  registration does not: a device of an owner without block periods announces itself
  and is sent an empty \<^verbatim>\<open>schedule_update\<close> (the announce runs to its end, with no status
  report taken up during its first wait).
\<close>

theorem register_pc_pushes_empty_schedule:
  "snd (register_pc ''s1'' None 2000 no_register_faults announce_lab [] store0) =
     [ToRoom (SocketRoom ''s1'') (ScheduleUpdate [])]"
  by (simp add: register_pc_def register_entry_def take_up_def register_merge_def register_schedule_def
        ensure_conn_def conn_ref_def conn_entry_def live_socket_def live_def set_entry_def
        tag_socket_def first_row_def select_pc_def find_by_name_def upsert_pc_def select_periods_def
        store0_def lab_row_def spare_row_def announce_lab_def no_register_faults_def empty_conn_def
        truthy_def truthy_num_def or_null_def or_null_num_def or_lit_def or_str_def coalesce_def
        seen_ge_def Let_def)

section \<open>Status reports\<close>

lemma ensure_conn_ref: "conn_ref (snd (ensure_conn w k)) k = Some (fst (ensure_conn w k))"
  by (simp add: ensure_conn_def conn_ref_def update_conv' split: option.splits)

lemma ensure_conn_heap: "heap (snd (ensure_conn w k)) (fst (ensure_conn w k)) = conn_or_empty w k"
  by (simp add: ensure_conn_def conn_or_empty_def split: option.splits)

lemma ensure_conn_store:
  "pc_settings (snd (ensure_conn w k)) = pc_settings w"
  "block_periods (snd (ensure_conn w k)) = block_periods w"
  "sockets (snd (ensure_conn w k)) = sockets w"
  "socket_pcId (snd (ensure_conn w k)) = socket_pcId w"
  by (simp_all add: ensure_conn_def split: option.splits)


lemma conn_all_fields:
  "c\<lparr>status := s, lastStatusAt := t, connected := b, socketId := i\<rparr> =
     \<lparr>connected = b, socketId = i, status = s, lastStatusAt = t\<rparr>"
  by (cases c) simp

lemma pc_status_unfold:
  assumes "incomingId sid data w = Some k"
  shows "fst (pc_status sid now faults data w) =
           (let r = fst (ensure_conn w k); w1 = snd (ensure_conn w k);
                w3 = tag_socket sid k (set_entry r (\<lambda>c. c\<lparr>status := reported_status data (heap w1 r),
                        lastStatusAt := Some now, connected := True, socketId := Some sid\<rparr>) w1)
            in if write_fails faults then w3
               else update_status k (status (heap w3 r)) (lastStatusAt (heap w3 r)) w3)"
    and "snd (pc_status sid now faults data w) =
           broadcastUpdate (broadcast_read_fails faults) (fst (pc_status sid now faults data w))"
  using assms by (simp_all add: pc_status_def Let_def split_beta)

text \<open>
  C4, as amended. For a status report that resolves to an id, the entry of that id
  holds the reported status, the time of the report, \<open>connected\<close> and the socket; the
  handler then updates the persisted row of that id (an \<^verbatim>\<open>UPDATE\<close>: where the store has
  no row for the id, it stays without one) and broadcasts from the resulting state. A
  failing write leaves the store as it was, leaves registry, heap and socket tags as
  with a successful write, and the broadcast is made all the same.
\<close>

theorem status_report_updates_then_broadcasts:
  assumes "incomingId sid data w = Some k"
  shows "conn_entry (fst (pc_status sid now faults data w)) k =
           Some \<lparr>connected = True, socketId = Some sid,
                 status = reported_status data (conn_or_empty w k), lastStatusAt = Some now\<rparr> \<and>
         pc_settings (fst (pc_status sid now faults data w)) =
           (if write_fails faults then pc_settings w
            else map (\<lambda>row. if pc_id row = k
                             then row\<lparr>last_status := reported_status data (conn_or_empty w k),
                                      last_status_at := Some now\<rparr>
                             else row) (pc_settings w)) \<and>
         (select_pc w k = [] \<longrightarrow> pc_settings (fst (pc_status sid now faults data w)) = pc_settings w) \<and>
         snd (pc_status sid now faults data w) =
           broadcastUpdate (broadcast_read_fails faults) (fst (pc_status sid now faults data w)) \<and>
         pcConnections (fst (pc_status sid now faults data w)) =
           pcConnections (fst (pc_status sid now (faults\<lparr>write_fails := False\<rparr>) data w)) \<and>
         heap (fst (pc_status sid now faults data w)) =
           heap (fst (pc_status sid now (faults\<lparr>write_fails := False\<rparr>) data w)) \<and>
         socket_pcId (fst (pc_status sid now faults data w)) =
           socket_pcId (fst (pc_status sid now (faults\<lparr>write_fails := False\<rparr>) data w))"
proof -
  let ?w' = "fst (pc_status sid now faults data w)"
  note u = pc_status_unfold(1)[OF assms]
  have entry: "conn_entry ?w' k = Some \<lparr>connected = True, socketId = Some sid,
                 status = reported_status data (conn_or_empty w k), lastStatusAt = Some now\<rparr>"
    by (simp add: u Let_def conn_entry_def conn_ref_def update_status_def tag_socket_def set_entry_def
          ensure_conn_ref[unfolded conn_ref_def] ensure_conn_heap conn_all_fields)
  have store: "pc_settings ?w' =
           (if write_fails faults then pc_settings w
            else map (\<lambda>row. if pc_id row = k
                             then row\<lparr>last_status := reported_status data (conn_or_empty w k),
                                      last_status_at := Some now\<rparr>
                             else row) (pc_settings w))"
    by (simp add: u Let_def update_status_def tag_socket_def set_entry_def ensure_conn_store
          ensure_conn_heap)
  have norow: "select_pc w k = [] \<longrightarrow> pc_settings ?w' = pc_settings w"
  proof
    assume "select_pc w k = []"
    then have "\<forall>row \<in> set (pc_settings w). pc_id row \<noteq> k"
      by (auto simp: select_pc_def filter_empty_conv)
    then have "map (\<lambda>row. if pc_id row = k
                             then row\<lparr>last_status := reported_status data (conn_or_empty w k),
                                      last_status_at := Some now\<rparr>
                             else row) (pc_settings w) = pc_settings w"
      by (simp add: map_idI)
    with store show "pc_settings ?w' = pc_settings w" by simp
  qed
  have reg: "pcConnections ?w' = pcConnections (fst (pc_status sid now (faults\<lparr>write_fails := False\<rparr>) data w))"
     "heap ?w' = heap (fst (pc_status sid now (faults\<lparr>write_fails := False\<rparr>) data w))"
     "socket_pcId ?w' = socket_pcId (fst (pc_status sid now (faults\<lparr>write_fails := False\<rparr>) data w))"
    by (simp_all add: u pc_status_unfold(1)[OF assms, of now "faults\<lparr>write_fails := False\<rparr>"]
          Let_def update_status_def)
  from entry store norow reg pc_status_unfold(2)[OF assms, of now faults] show ?thesis by blast
qed

text \<open>
  C4 as stated speaks of an upsert. A report for an id without a persisted row updates
  the registry and creates no row.
\<close>

theorem status_report_no_row_counterexample:
  "incomingId ''s2'' ghost_report store0 = Some ''ghost'' \<and>
   conn_entry (fst (pc_status ''s2'' 5000 no_status_faults ghost_report store0)) ''ghost'' =
     Some \<lparr>connected = True, socketId = Some ''s2'', status = Some ''Locked'', lastStatusAt = Some 5000\<rparr> \<and>
   select_pc (fst (pc_status ''s2'' 5000 no_status_faults ghost_report store0)) ''ghost'' = []"
  by (simp add: pc_status_def incomingId_def reported_status_def ensure_conn_def conn_ref_def conn_entry_def
        set_entry_def tag_socket_def update_status_def select_pc_def
        store0_def lab_row_def spare_row_def ghost_report_def no_status_faults_def empty_conn_def
        truthy_def or_null_def or_lit_def or_str_def Let_def)

theorem status_report_updates_then_broadcasts_witness:
  "incomingId ''s1'' lab_report store0 = Some ''tmp1'' \<and>
   conn_entry (fst (pc_status ''s1'' 5000 write_fault lab_report store0)) ''tmp1'' =
     Some \<lparr>connected = True, socketId = Some ''s1'', status = Some ''Unlocked'', lastStatusAt = Some 5000\<rparr> \<and>
   pc_settings (fst (pc_status ''s1'' 5000 write_fault lab_report store0)) = pc_settings store0 \<and>
   snd (pc_status ''s1'' 5000 write_fault lab_report store0) =
     broadcastUpdate False (fst (pc_status ''s1'' 5000 write_fault lab_report store0)) \<and>
   heap (fst (pc_status ''s1'' 5000 write_fault lab_report store0)) =
     heap (fst (pc_status ''s1'' 5000 no_status_faults lab_report store0)) \<and>
   incomingId ''s2'' ghost_report store0 = Some ''ghost'' \<and> select_pc store0 ''ghost'' = [] \<and>
   pc_settings (fst (pc_status ''s2'' 5000 no_status_faults ghost_report store0)) = pc_settings store0"
proof -
  have h: "incomingId ''s1'' lab_report store0 = Some ''tmp1''"
    by (simp add: incomingId_def lab_report_def truthy_def or_null_def)
  have r: "reported_status lab_report (conn_or_empty store0 ''tmp1'') = Some ''Unlocked''"
    by (simp add: reported_status_def lab_report_def truthy_def)
  have f: "write_fault\<lparr>write_fails := False\<rparr> = no_status_faults"
    by (simp add: write_fault_def no_status_faults_def)
  have g: "incomingId ''s2'' ghost_report store0 = Some ''ghost''"
    by (simp add: incomingId_def ghost_report_def truthy_def or_null_def)
  have n: "select_pc store0 ''ghost'' = []"
    by (simp add: select_pc_def store0_def lab_row_def spare_row_def)
  from status_report_updates_then_broadcasts[OF g, of 5000 no_status_faults] n
  have "pc_settings (fst (pc_status ''s2'' 5000 no_status_faults ghost_report store0)) = pc_settings store0"
    by blast
  with status_report_updates_then_broadcasts[OF h, of 5000 write_fault] h r f g n show ?thesis
    by (simp add: write_fault_def)
qed

section \<open>Announces\<close>

lemma take_up_nil: "take_up [] w = w"
  by (simp add: take_up_def)

lemma register_entry_unfold:
  "register_entry sid faults k [] w =
     (let r = fst (ensure_conn w k); w1 = snd (ensure_conn w k);
          w2 = set_entry r (\<lambda>c. c\<lparr>connected := True, socketId := Some sid\<rparr>) w1;
          w3 = (if truthy (status (heap w2 r)) \<or> hydrate_fails faults then w2
                else case first_row (select_pc w2 k) of
                       None \<Rightarrow> w2
                     | Some row \<Rightarrow>
                         if truthy (last_status row)
                         then set_entry r (\<lambda>c. c\<lparr>status := last_status row\<rparr>) w2
                         else w2)
      in (r, tag_socket sid k w3))"
proof -
  have r: "conn_ref (set_entry (fst (ensure_conn w k)) f (snd (ensure_conn w k))) k =
             Some (fst (ensure_conn w k))" for f
    using ensure_conn_ref[of w k] by (simp add: conn_ref_def set_entry_def)
  show ?thesis
    by (simp add: register_entry_def split_beta Let_def take_up_nil r split: option.splits)
qed

lemma register_entry_ref: "fst (register_entry sid faults k [] w) = fst (ensure_conn w k)"
  by (simp add: register_entry_unfold Let_def)

lemma register_entry_store:
  "pc_settings (snd (register_entry sid faults k [] w)) = pc_settings w"
  "block_periods (snd (register_entry sid faults k [] w)) = block_periods w"
  "sockets (snd (register_entry sid faults k [] w)) = sockets w"
  by (simp_all add: register_entry_unfold Let_def tag_socket_def set_entry_def ensure_conn_store
        split: option.splits)

lemma register_entry_registry:
  "pcConnections (snd (register_entry sid faults k [] w)) = pcConnections (snd (ensure_conn w k))"
  by (simp add: register_entry_unfold Let_def tag_socket_def set_entry_def split: option.splits)

lemma register_entry_tag: "socket_pcId (snd (register_entry sid faults k [] w)) sid = Some k"
  by (simp add: register_entry_unfold Let_def tag_socket_def)

lemma register_entry_heap:
  "connected (heap (snd (register_entry sid faults k [] w)) (fst (ensure_conn w k)))"
  "socketId (heap (snd (register_entry sid faults k [] w)) (fst (ensure_conn w k))) = Some sid"
  "lastStatusAt (heap (snd (register_entry sid faults k [] w)) (fst (ensure_conn w k))) =
     lastStatusAt (conn_or_empty w k)"
  "truthy (status (conn_or_empty w k)) \<Longrightarrow>
     status (heap (snd (register_entry sid faults k [] w)) (fst (ensure_conn w k))) =
       status (conn_or_empty w k)"
  by (simp_all add: register_entry_unfold Let_def tag_socket_def set_entry_def ensure_conn_heap
        split: option.splits)






lemma upsert_registry:
  "pcConnections (upsert_pc k nm t ipv ownerId w) = pcConnections w"
  "heap (upsert_pc k nm t ipv ownerId w) = heap w"
  "socket_pcId (upsert_pc k nm t ipv ownerId w) = socket_pcId w"
  by (simp_all add: upsert_pc_def)




lemma select_pc_store: "pc_settings v = pc_settings w \<Longrightarrow> select_pc v k = select_pc w k"
  by (simp add: select_pc_def)






section \<open>The order of announce and status report\<close>

lemma incomingId_explicit: "m_id msg = Some k \<Longrightarrow> k \<noteq> [] \<Longrightarrow> incomingId sid msg w = Some k"
  by (simp add: incomingId_def truthy_def or_null_def)

lemma pc_status_entry:
  assumes "incomingId sid data w = Some k"
  shows "conn_entry (fst (pc_status sid now faults data w)) k =
           Some \<lparr>connected = True, socketId = Some sid,
                 status = reported_status data (conn_or_empty w k), lastStatusAt = Some now\<rparr>"
  by (simp add: pc_status_unfold(1)[OF assms] Let_def conn_entry_def conn_ref_def update_status_def
        tag_socket_def set_entry_def ensure_conn_ref[unfolded conn_ref_def] ensure_conn_heap
        conn_all_fields)

lemma update_status_store:
  "pc_settings v = pc_settings w \<Longrightarrow>
     pc_settings (update_status k s t v) = pc_settings (update_status k s t w)"
  by (simp add: update_status_def)

lemma pc_status_store:
  "pc_settings (fst (pc_status sid now faults data w)) = pc_settings w \<or>
   (\<exists>k s t. pc_settings (fst (pc_status sid now faults data w)) = pc_settings (update_status k s t w))"
proof (cases "incomingId sid data w")
  case None
  then show ?thesis by (simp add: pc_status_def)
next
  case (Some k)
  let ?r = "fst (ensure_conn w k)"
  let ?w3 = "tag_socket sid k (set_entry ?r (\<lambda>c. c\<lparr>status := reported_status data (heap (snd (ensure_conn w k)) ?r),
                        lastStatusAt := Some now, connected := True, socketId := Some sid\<rparr>) (snd (ensure_conn w k)))"
  have st: "pc_settings ?w3 = pc_settings w"
    by (simp add: tag_socket_def set_entry_def ensure_conn_store)
  show ?thesis
  proof (cases "write_fails faults")
    case True
    then have "fst (pc_status sid now faults data w) = ?w3"
      by (simp add: pc_status_unfold(1)[OF Some] Let_def)
    with st show ?thesis by simp
  next
    case False
    then have "fst (pc_status sid now faults data w) =
                 update_status k (status (heap ?w3 ?r)) (lastStatusAt (heap ?w3 ?r)) ?w3"
      by (simp add: pc_status_unfold(1)[OF Some] Let_def)
    with update_status_store[OF st] show ?thesis by metis
  qed
qed

lemma most_recent_map:
  assumes "\<And>row. last_seen (f row) = last_seen row"
  shows "most_recent (map f rows) = map_option f (most_recent rows)"
  by (induction rows) (auto simp: assms split: option.splits)

lemma find_by_name_update_status:
  "find_by_name (update_status k s t w) nm =
     map_option (\<lambda>row. if pc_id row = k then row\<lparr>last_status := s, last_status_at := t\<rparr> else row)
       (find_by_name w nm)"
proof -
  let ?f = "\<lambda>row. if pc_id row = k then row\<lparr>last_status := s, last_status_at := t\<rparr> else row"
  have fm: "filter (\<lambda>row. name row = Some nm) (map ?f rows) =
          map ?f (filter (\<lambda>row. name row = Some nm) rows)" for rows :: "pc_row list"
    by (induction rows) auto
  have mr: "most_recent (map ?f rows) = map_option ?f (most_recent rows)" for rows :: "pc_row list"
    by (rule most_recent_map) simp
  show ?thesis
    unfolding find_by_name_def update_status_def by (simp add: fm mr)
qed

lemma renamed_store: "pc_settings v = pc_settings w \<Longrightarrow> renamed v data = renamed w data"
proof -
  assume eq: "pc_settings v = pc_settings w"
  have f: "find_by_name v = find_by_name w" by (rule ext) (simp add: find_by_name_def eq)
  show ?thesis unfolding renamed_def f ..
qed

lemma renamed_update_status: "renamed (update_status k s t w) data = renamed w data"
  by (auto simp: renamed_def find_by_name_update_status split: option.splits)

lemma renamed_after_status: "renamed (fst (pc_status sid now faults msg w)) data = renamed w data"
proof -
  from pc_status_store[of sid now faults msg w] show ?thesis
  proof
    assume "pc_settings (fst (pc_status sid now faults msg w)) = pc_settings w"
    then show ?thesis by (rule renamed_store)
  next
    assume "\<exists>k s t. pc_settings (fst (pc_status sid now faults msg w)) =
                      pc_settings (update_status k s t w)"
    then obtain k s t where
      "pc_settings (fst (pc_status sid now faults msg w)) = pc_settings (update_status k s t w)"
      by blast
    from renamed_store[OF this] show ?thesis by (simp add: renamed_update_status)
  qed
qed

lemma register_merge_not_renamed:
  assumes "\<not> renamed w data"
  shows "pcConnections (snd (register_merge sid su now faults data r w)) = pcConnections w"
    and "heap (snd (register_merge sid su now faults data r w)) = heap w"
proof -
  define ex where "ex = (case or_null (g_name data) of None \<Rightarrow> None | Some nm \<Rightarrow> find_by_name w nm)"
  have "ex = None \<or> (\<exists>row. ex = Some row \<and> (pc_id row = [] \<or> pc_id row = g_id data))"
    using assms by (auto simp: renamed_def ex_def split: option.splits)
  then have e: "or_null (map_option pc_id ex) = None \<or> or_null (map_option pc_id ex) = Some (g_id data)"
    by (auto simp: or_null_def truthy_def)
  have "pcConnections (snd (register_merge sid su now faults data r w)) = pcConnections w \<and>
        heap (snd (register_merge sid su now faults data r w)) = heap w"
    using e
  proof
    assume n: "or_null (map_option pc_id ex) = None"
    show ?thesis
      unfolding register_merge_def Let_def ex_def[symmetric]
      by (simp add: n upsert_registry)
  next
    assume n: "or_null (map_option pc_id ex) = Some (g_id data)"
    show ?thesis
      unfolding register_merge_def Let_def ex_def[symmetric]
      by (simp add: n upsert_registry)
  qed
  then show "pcConnections (snd (register_merge sid su now faults data r w)) = pcConnections w"
    and "heap (snd (register_merge sid su now faults data r w)) = heap w" by simp_all
qed

lemma register_pc_not_renamed:
  assumes "\<not> renamed w data" and "conn_entry w (g_id data) = Some c"
  shows "\<exists>c'. conn_entry (fst (register_pc sid su now faults data [] w)) (g_id data) = Some c' \<and>
           lastStatusAt c' = lastStatusAt c \<and>
           (truthy (status c) \<longrightarrow> status c' = status c) \<and>
           (if g_clientType data = Some ''pc_app'' then connected c' \<and> socketId c' = Some sid
            else c' = c)"
proof (cases "g_clientType data = Some ''pc_app''")
  case False
  then show ?thesis using assms(2) by (simp add: register_pc_def)
next
  case True
  let ?k = "g_id data"
  let ?w1 = "snd (register_entry sid faults ?k [] w)"
  let ?r = "fst (ensure_conn w ?k)"
  from assms(2) obtain r where r: "conn_ref w ?k = Some r" "heap w r = c"
    by (auto simp: conn_entry_def split: option.splits)
  then have e: "?r = r" "conn_or_empty w ?k = c" "pcConnections (snd (ensure_conn w ?k)) = pcConnections w"
    by (simp_all add: ensure_conn_def conn_or_empty_def)
  have nr: "\<not> renamed ?w1 data" using assms(1) renamed_store[OF register_entry_store(1)] by simp
  have w': "fst (register_pc sid su now faults data [] w) = snd (register_merge sid su now faults data ?r ?w1)"
    by (simp add: register_pc_def True split_beta register_entry_ref)
  have "conn_entry (fst (register_pc sid su now faults data [] w)) ?k = Some (heap ?w1 ?r)"
    by (simp add: w' conn_entry_def conn_ref_def register_merge_not_renamed[OF nr]
          register_entry_registry e r(1)[unfolded conn_ref_def])
  with register_entry_heap[where sid=sid and faults=faults and k="?k" and w=w] True e show ?thesis by simp
qed

text \<open>
  Handlers that run to their end one after the other. The status report carries the
  device's id and a status, and the announce is not renamed to another identity. Then
  announce followed by report and report followed by announce leave the same entry
  under that id: connected, the socket, the reported status and the time of the report.
  Such an announce keeps the \<open>lastStatusAt\<close> of an entry, and its status when it has one.
\<close>

lemma orders_agree_without_race:
  assumes "m_id msg = Some (g_id data)" and "g_id data \<noteq> []" and "truthy (m_status msg)"
    and "\<not> renamed w data"
  shows "conn_entry (fst (pc_status sid t sf msg (fst (register_pc sid su t1 rf data [] w)))) (g_id data) =
           Some \<lparr>connected = True, socketId = Some sid, status = m_status msg, lastStatusAt = Some t\<rparr> \<and>
         conn_entry (fst (register_pc sid su' t2 rf' data [] (fst (pc_status sid t sf' msg w)))) (g_id data) =
           Some \<lparr>connected = True, socketId = Some sid, status = m_status msg, lastStatusAt = Some t\<rparr> \<and>
         (\<forall>c. conn_entry w (g_id data) = Some c \<longrightarrow>
            (\<exists>c'. conn_entry (fst (register_pc sid su t1 rf data [] w)) (g_id data) = Some c' \<and>
                  lastStatusAt c' = lastStatusAt c \<and> (truthy (status c) \<longrightarrow> status c' = status c)))"
proof -
  let ?k = "g_id data"
  let ?e = "\<lparr>connected = True, socketId = Some sid, status = m_status msg, lastStatusAt = Some t\<rparr>"
  have rs: "reported_status msg c = m_status msg" for c
    using assms(3) by (simp add: reported_status_def)
  have first: "conn_entry (fst (pc_status sid t sf msg (fst (register_pc sid su t1 rf data [] w)))) ?k = Some ?e"
    using pc_status_entry[OF incomingId_explicit[OF assms(1,2), of sid "fst (register_pc sid su t1 rf data [] w)"],
            of t sf]
    by (simp add: rs)
  let ?w1 = "fst (pc_status sid t sf' msg w)"
  have e1: "conn_entry ?w1 ?k = Some ?e"
    using pc_status_entry[OF incomingId_explicit[OF assms(1,2), of sid w], of t sf'] by (simp add: rs)
  have nr: "\<not> renamed ?w1 data" using assms(4) by (simp add: renamed_after_status)
  from register_pc_not_renamed[OF nr e1, where sid=sid and su=su' and now=t2 and faults=rf'] obtain c' where
    c': "conn_entry (fst (register_pc sid su' t2 rf' data [] ?w1)) ?k = Some c'"
      "lastStatusAt c' = Some t" "status c' = m_status msg"
      "if g_clientType data = Some ''pc_app'' then connected c' \<and> socketId c' = Some sid else c' = ?e"
    using assms(3) by auto
  then have "c' = ?e" by (cases "g_clientType data = Some ''pc_app''") auto
  with c'(1) have second: "conn_entry (fst (register_pc sid su' t2 rf' data [] ?w1)) ?k = Some ?e" by simp
  have third: "\<forall>c. conn_entry w ?k = Some c \<longrightarrow>
            (\<exists>c'. conn_entry (fst (register_pc sid su t1 rf data [] w)) ?k = Some c' \<and>
                  lastStatusAt c' = lastStatusAt c \<and> (truthy (status c) \<longrightarrow> status c' = status c))"
    using register_pc_not_renamed[OF assms(4), where sid=sid and su=su and now=t1 and faults=rf] by blast
  from first second third show ?thesis by blast
qed

text \<open>
  Other reports, again with handlers that run to their end. A report without id
  resolves through the socket only after the announce: handled first it is dropped. A
  report with the id and without a status keeps the status the announce loaded from the
  store when it comes second, and sets \<open>Unknown\<close>, which the announce then keeps, when it
  comes first. Around an announce that is renamed, a report with the announced id finds
  the entry moved away and makes a new one when it comes second, and has its entry
  moved away when it comes first.
\<close>

lemma orders_of_other_reports:
  "conn_entry (fst (pc_status ''s1'' 5000 no_status_faults bare_report
                 (fst (register_pc ''s1'' None 2000 no_register_faults announce_lab [] store0)))) ''tmp1'' =
     Some \<lparr>connected = True, socketId = Some ''s1'', status = Some ''Unlocked'', lastStatusAt = Some 5000\<rparr> \<and>
   conn_entry (fst (register_pc ''s1'' None 2000 no_register_faults announce_lab []
                 (fst (pc_status ''s1'' 5000 no_status_faults bare_report store0)))) ''tmp1'' =
     Some \<lparr>connected = True, socketId = Some ''s1'', status = Some ''Locked'', lastStatusAt = None\<rparr> \<and>
   conn_entry (fst (pc_status ''s1'' 5000 no_status_faults unknown_report
                 (fst (register_pc ''s1'' None 2000 no_register_faults announce_lab [] store0)))) ''tmp1'' =
     Some \<lparr>connected = True, socketId = Some ''s1'', status = Some ''Locked'', lastStatusAt = Some 5000\<rparr> \<and>
   conn_entry (fst (register_pc ''s1'' None 2000 no_register_faults announce_lab []
                 (fst (pc_status ''s1'' 5000 no_status_faults unknown_report store0)))) ''tmp1'' =
     Some \<lparr>connected = True, socketId = Some ''s1'', status = Some ''Unknown'', lastStatusAt = Some 5000\<rparr> \<and>
   conn_entry (fst (pc_status ''s1'' 5000 no_status_faults tmp2_report
                 (fst (register_pc ''s1'' None 2000 no_register_faults announce_renamed [] store0)))) ''tmp2'' =
     Some \<lparr>connected = True, socketId = Some ''s1'', status = Some ''Locked'', lastStatusAt = Some 5000\<rparr> \<and>
   conn_entry (fst (register_pc ''s1'' None 2000 no_register_faults announce_renamed []
                 (fst (pc_status ''s1'' 5000 no_status_faults tmp2_report store0)))) ''tmp2'' = None"
  by (simp add: pc_status_def incomingId_def find_by_socket_def reported_status_def update_status_def
        register_pc_def register_entry_def take_up_def register_merge_def register_schedule_def
        ensure_conn_def conn_ref_def conn_entry_def live_socket_def live_def set_entry_def
        tag_socket_def first_row_def select_pc_def find_by_name_def upsert_pc_def select_periods_def
        store0_def lab_row_def spare_row_def announce_lab_def no_register_faults_def empty_conn_def
        no_status_faults_def bare_report_def unknown_report_def tmp2_report_def announce_renamed_def
        truthy_def truthy_num_def or_null_def or_null_num_def or_lit_def or_str_def coalesce_def
        seen_ge_def Let_def)

text \<open>
  A status report that is taken up while the announce waits for the persisted status.
  It neither removes nor replaces an entry object. When the entry of the announced id
  has no status, the store has one, and the report is for that id, the announce ends
  with the persisted status in the entry, whatever the report said, next to the time of
  the report.
\<close>

lemma ensure_conn_same_ref: "conn_ref w k = Some r \<Longrightarrow> conn_ref (snd (ensure_conn w j)) k = Some r"
  by (auto simp: ensure_conn_def conn_ref_def update_conv' split: option.splits)

lemma pc_status_same_ref:
  assumes "conn_ref w k = Some r"
  shows "conn_ref (fst (pc_status sid now faults data w)) k = Some r"
proof (cases "incomingId sid data w")
  case None
  then show ?thesis using assms by (simp add: pc_status_def)
next
  case (Some j)
  from ensure_conn_same_ref[OF assms, of j] show ?thesis
    by (simp add: pc_status_unfold(1)[OF Some] Let_def conn_ref_def set_entry_def tag_socket_def
          update_status_def)
qed

lemma take_up_same_ref: "conn_ref w k = Some r \<Longrightarrow> conn_ref (take_up racing w) k = Some r"
  unfolding take_up_def
  by (induction racing arbitrary: w) (simp_all add: pc_status_same_ref)

lemma register_entry_race:
  assumes "\<not> truthy (status (conn_or_empty w k))"
    and "first_row (select_pc w k) = Some row" and "truthy (last_status row)"
    and "\<not> hydrate_fails faults"
    and "m_id (h_msg q) = Some k" and "k \<noteq> []"
  shows "conn_entry (snd (register_entry sid faults k [q] w)) k =
           Some \<lparr>connected = True, socketId = Some (h_socket q), status = last_status row,
                 lastStatusAt = Some (h_now q)\<rparr>"
proof -
  let ?r = "fst (ensure_conn w k)"
  let ?w2 = "set_entry ?r (\<lambda>c. c\<lparr>connected := True, socketId := Some sid\<rparr>) (snd (ensure_conn w k))"
  let ?w3 = "fst (pc_status (h_socket q) (h_now q) (h_faults q) (h_msg q) ?w2)"
  have st: "status (heap ?w2 ?r) = status (conn_or_empty w k)"
    by (simp add: set_entry_def ensure_conn_heap)
  have rows: "select_pc ?w2 k = select_pc w k"
    by (simp add: select_pc_def set_entry_def ensure_conn_store)
  have r2: "conn_ref ?w2 k = Some ?r"
    using ensure_conn_ref[of w k] by (simp add: conn_ref_def set_entry_def)
  have r3: "conn_ref ?w3 k = Some ?r" by (rule pc_status_same_ref[OF r2])
  from pc_status_entry[OF incomingId_explicit[OF assms(5,6), of "h_socket q" ?w2], of "h_now q" "h_faults q"] r3
  have h3: "heap ?w3 ?r = \<lparr>connected = True, socketId = Some (h_socket q),
               status = reported_status (h_msg q) (conn_or_empty ?w2 k), lastStatusAt = Some (h_now q)\<rparr>"
    by (simp add: conn_entry_def)
  have "snd (register_entry sid faults k [q] w) =
          tag_socket sid k (set_entry ?r (\<lambda>c. c\<lparr>status := last_status row\<rparr>) ?w3)"
    using assms(1-4) by (simp add: register_entry_def split_beta Let_def take_up_def st rows r3)
  then show ?thesis using r3 h3
    by (simp add: conn_entry_def conn_ref_def tag_socket_def set_entry_def)
qed

lemma take_up_renamed: "renamed (take_up racing w) data = renamed w data"
  unfolding take_up_def
  by (induction racing arbitrary: w) (simp_all add: renamed_after_status)

lemma register_entry_renamed:
  "renamed (snd (register_entry sid faults k racing w)) data = renamed w data"
proof -
  let ?w2 = "set_entry (fst (ensure_conn w k)) (\<lambda>c. c\<lparr>connected := True, socketId := Some sid\<rparr>)
               (snd (ensure_conn w k))"
  have s2: "pc_settings ?w2 = pc_settings w" "pc_settings (tag_socket sid k ?w2) = pc_settings w"
    by (simp_all add: set_entry_def tag_socket_def ensure_conn_store)
  have "pc_settings (snd (register_entry sid faults k racing w)) = pc_settings (take_up racing ?w2) \<or>
        pc_settings (snd (register_entry sid faults k racing w)) =
          pc_settings (take_up racing (tag_socket sid k ?w2))"
    by (simp add: register_entry_def split_beta Let_def tag_socket_def set_entry_def
          split: option.splits)
  then show ?thesis
  proof
    assume "pc_settings (snd (register_entry sid faults k racing w)) = pc_settings (take_up racing ?w2)"
    from renamed_store[OF this] renamed_store[OF s2(1)] show ?thesis by (simp add: take_up_renamed)
  next
    assume "pc_settings (snd (register_entry sid faults k racing w)) =
              pc_settings (take_up racing (tag_socket sid k ?w2))"
    from renamed_store[OF this] renamed_store[OF s2(2)] show ?thesis by (simp add: take_up_renamed)
  qed
qed

lemma register_pc_race:
  assumes "g_clientType data = Some ''pc_app''"
    and "\<not> truthy (status (conn_or_empty w (g_id data)))"
    and "first_row (select_pc w (g_id data)) = Some row" and "truthy (last_status row)"
    and "\<not> hydrate_fails faults"
    and "m_id (h_msg q) = Some (g_id data)" and "g_id data \<noteq> []"
    and "\<not> renamed w data"
  shows "conn_entry (fst (register_pc sid su now faults data [q] w)) (g_id data) =
           Some \<lparr>connected = True, socketId = Some (h_socket q), status = last_status row,
                 lastStatusAt = Some (h_now q)\<rparr>"
proof -
  let ?k = "g_id data"
  let ?w1 = "snd (register_entry sid faults ?k [q] w)"
  let ?r = "fst (register_entry sid faults ?k [q] w)"
  have nr: "\<not> renamed ?w1 data" using assms(8) by (simp add: register_entry_renamed)
  have w': "fst (register_pc sid su now faults data [q] w) =
              snd (register_merge sid su now faults data ?r ?w1)"
    by (simp add: register_pc_def assms(1) split_beta)
  have "conn_entry (fst (register_pc sid su now faults data [q] w)) ?k = conn_entry ?w1 ?k"
    unfolding w' conn_entry_def conn_ref_def register_merge_not_renamed[OF nr] ..
  with register_entry_race[OF assms(2-7), of sid] show ?thesis by simp
qed

text \<open>
  C7. The store holds \<open>Locked\<close> for device \<open>tmp1\<close>, and the registry has no entry for
  it. The device announces itself on socket \<open>s1\<close> and sends the status report
  \<open>Unlocked\<close> right after, so that the report is taken up while the announce waits for
  the persisted status. The announce then writes the persisted \<open>Locked\<close> over the
  reported \<open>Unlocked\<close>: the entry ends with status \<open>Locked\<close> and the report's time, while
  the store holds \<open>Unlocked\<close>. The same report handled before the announce, or after
  the announce has run to its end, leaves \<open>Unlocked\<close>: the two orders of the claim end
  in different entries, and a status that was known is lost.
\<close>

theorem register_pc_clobbers_racing_status:
  "conn_entry store0 ''tmp1'' = None \<and>
   map last_status (select_pc store0 ''tmp1'') = [Some ''Locked''] \<and>
   conn_entry (fst (register_pc ''s1'' None 1000 no_register_faults announce_lab [racing_lab] store0)) ''tmp1'' =
     Some \<lparr>connected = True, socketId = Some ''s1'', status = Some ''Locked'', lastStatusAt = Some 2000\<rparr> \<and>
   map last_status
     (select_pc (fst (register_pc ''s1'' None 1000 no_register_faults announce_lab [racing_lab] store0)) ''tmp1'') =
     [Some ''Unlocked''] \<and>
   conn_entry (fst (register_pc ''s1'' None 3000 no_register_faults announce_lab []
                 (fst (pc_status ''s1'' 2000 no_status_faults lab_report store0)))) ''tmp1'' =
     Some \<lparr>connected = True, socketId = Some ''s1'', status = Some ''Unlocked'', lastStatusAt = Some 2000\<rparr> \<and>
   conn_entry (fst (pc_status ''s1'' 2000 no_status_faults lab_report
                 (fst (register_pc ''s1'' None 1000 no_register_faults announce_lab [] store0)))) ''tmp1'' =
     Some \<lparr>connected = True, socketId = Some ''s1'', status = Some ''Unlocked'', lastStatusAt = Some 2000\<rparr>"
  by (simp add: pc_status_def incomingId_def find_by_socket_def reported_status_def update_status_def
        register_pc_def register_entry_def take_up_def register_merge_def register_schedule_def
        ensure_conn_def conn_ref_def conn_entry_def live_socket_def live_def set_entry_def
        tag_socket_def first_row_def select_pc_def find_by_name_def upsert_pc_def select_periods_def
        store0_def lab_row_def spare_row_def announce_lab_def no_register_faults_def empty_conn_def
        no_status_faults_def lab_report_def racing_lab_def
        truthy_def truthy_num_def or_null_def or_null_num_def or_lit_def or_str_def coalesce_def
        seen_ge_def Let_def)

section \<open>The probe\<close>

declare scan.simps [simp del] legacy_poll.simps [simp del]

lemma scan_bounds:
  assumes "scanStart + 100 * n \<le> clock" and "n \<le> 20"
  shows "fst (snd (snd (snd (scan pcId scanStart conn foundConn clock n env w)))) \<le> 20"
  using assms
proof (induction pcId scanStart conn foundConn clock n env w rule: scan.induct)
  case (1 pcId scanStart conn foundConn clock n env w)
  show ?case
  proof (cases "\<not> foundConn \<and> clock - scanStart < 2000")
    case False
    then show ?thesis using "1.prems" by (subst scan.simps) auto
  next
    case True
    show ?thesis
    proof (cases "scan_registry w pcId")
      case (Some r)
      then show ?thesis using True "1.prems" by (subst scan.simps) simp
    next
      case None
      show ?thesis
      proof (cases "scan_sockets w pcId")
        case (Some sid)
        then show ?thesis using True None "1.prems" by (subst scan.simps) simp
      next
        case N2: None
        from True "1.prems" have "Suc n \<le> 20" "scanStart + 100 * Suc n \<le> clock + 100 + late (env n)"
          by auto
        from "1.IH"[OF True None N2 this(2,1)] show ?thesis
          using True None N2 by (subst scan.simps) simp
      qed
    qed
  qed
qed

lemma scan_clock:
  assumes "\<And>m. late (env m) \<le> L" and "clock \<le> scanStart + 2099 + L"
  shows "fst (snd (snd (scan pcId scanStart conn foundConn clock n env w))) \<le> scanStart + 2099 + L"
  using assms
proof (induction pcId scanStart conn foundConn clock n env w rule: scan.induct)
  case (1 pcId scanStart conn foundConn clock n env w)
  show ?case
  proof (cases "\<not> foundConn \<and> clock - scanStart < 2000")
    case False
    then show ?thesis using "1.prems" by (subst scan.simps) auto
  next
    case True
    show ?thesis
    proof (cases "scan_registry w pcId")
      case (Some r)
      then show ?thesis using True "1.prems" by (subst scan.simps) simp
    next
      case None
      show ?thesis
      proof (cases "scan_sockets w pcId")
        case (Some sid)
        then show ?thesis using True None "1.prems" by (subst scan.simps) simp
      next
        case N2: None
        from True have "clock < scanStart + 2000" by arith
        with "1.prems"(1)[of n] have "clock + 100 + late (env n) \<le> scanStart + 2099 + L"
          by arith
        from "1.IH"[OF True None N2 "1.prems"(1) this] show ?thesis
          using True None N2 by (subst scan.simps) simp
      qed
    qed
  qed
qed

lemma scan_not_found:
  assumes "\<And>m. scan_registry (run_ticks env m w0) pcId = None"
    and "\<And>m. scan_sockets (run_ticks env m w0) pcId = None"
    and "\<not> foundConn" and "w = run_ticks env n w0"
  shows "\<exists>n' clock'. scan pcId scanStart conn foundConn clock n env w =
            (conn, False, clock', n', run_ticks env n' w0) \<and> scanStart + 2000 \<le> clock'"
  using assms
proof (induction pcId scanStart conn foundConn clock n env w rule: scan.induct)
  case (1 pcId scanStart conn foundConn clock n env w)
  have r: "scan_registry w pcId = None" and s: "scan_sockets w pcId = None"
    using "1.prems"(1)[of n] "1.prems"(2)[of n] "1.prems"(4) by auto
  show ?case
  proof (cases "clock - scanStart < 2000")
    case False
    then show ?thesis using "1.prems"(3,4) by (subst scan.simps) auto
  next
    case True
    with "1.prems"(3) have c: "\<not> foundConn \<and> clock - scanStart < 2000" by simp
    have "act (env n) w = run_ticks env (Suc n) w0" using "1.prems"(4) by simp
    from "1.IH"[OF c r s "1.prems"(1,2) _ this] obtain n' clock' where
      "scan pcId scanStart conn False (clock + 100 + late (env n)) (Suc n) env (act (env n) w) =
         (conn, False, clock', n', run_ticks env n' w0) \<and> scanStart + 2000 \<le> clock'"
      by auto
    then show ?thesis using c r s by (subst scan.simps) simp
  qed
qed



lemma probe_fallback_cases:
  "probe_fallback faults pcId v =
     (if persisted_read_fails faults then Offline
      else case first_row (select_pc v pcId) of
             None \<Rightarrow> Offline
           | Some row \<Rightarrow>
               (case last_status row of
                  None \<Rightarrow> Offline
                | Some s \<Rightarrow> if s \<noteq> [] then Stale s (last_status_at row) else Offline))"
  by (simp add: probe_fallback_def truthy_def or_lit_def split: option.splits)


lemma probe_of_owner:
  assumes "requireAuth session_user = Some userId" and "\<not> owner_check_fails faults"
    and "first_row (select_pc w pcId) = Some row" and "owner_id row = Some userId"
  shows "probe session_user pcId probeId clock faults scan_env fast_env poll_env w =
           (let found0 = (case conn_ref w pcId of None \<Rightarrow> False | Some r \<Rightarrow> live (heap w r));
                sc = scan pcId clock (conn_ref w pcId) found0 clock 0 scan_env w;
                conn = fst sc; start = fst (snd (snd sc)); sleeps = fst (snd (snd (snd sc)));
                w1 = snd (snd (snd (snd sc)))
            in case (case conn of None \<Rightarrow> None
                     | Some r \<Rightarrow> if live (heap w1 r) then Some r else None) of
                 None \<Rightarrow> \<lparr>resp = probe_fallback faults pcId w1, after_world = w1, emitted = [],
                           scan_sleeps = sleeps, scan_end = start, conn_used = conn,
                           poll_sleeps = 0, phase = Unresolved\<rparr>
               | Some r \<Rightarrow> probe_live pcId probeId r start sleeps fast_env poll_env w1)"
  using assms by (simp add: probe_def Let_def split_beta)

text \<open>
  C9. The caller owns the device, and during the rescan neither the registry holds an
  entry with a socket for the id, nor a live socket carries the id, nor does the entry
  object the probe started with become live. Then the probe ends unresolved after at
  most 20 sleeps of the rescan (the rescan has run its full 2000 ms, and ends at most
  2099 ms plus the lateness of a timer after it began), without sending anything and
  without a sleep of the polling loop; the state is the one the other handlers left.
  The answer is the persisted status of the row, marked stale, when the store returns a
  row with a status, and else the 503 answer.
\<close>

theorem probe_of_device_that_never_connects:
  assumes "requireAuth session_user = Some userId" and "\<not> owner_check_fails faults"
    and "first_row (select_pc w pcId) = Some row" and "owner_id row = Some userId"
    and "\<And>m. scan_registry (run_ticks scan_env m w) pcId = None"
    and "\<And>m. scan_sockets (run_ticks scan_env m w) pcId = None"
    and "\<And>m r. conn_ref w pcId = Some r \<Longrightarrow> \<not> live (heap (run_ticks scan_env m w) r)"
  shows "let res = probe session_user pcId probeId clock faults scan_env fast_env poll_env w
         in phase res = Unresolved \<and> emitted res = [] \<and> scan_sleeps res \<le> 20 \<and> poll_sleeps res = 0 \<and>
            after_world res = run_ticks scan_env (scan_sleeps res) w \<and>
            clock + 2000 \<le> scan_end res \<and>
            (\<forall>L. (\<forall>m. late (scan_env m) \<le> L) \<longrightarrow> scan_end res \<le> clock + 2099 + L) \<and>
            resp res =
              (if persisted_read_fails faults then Offline
               else case first_row (select_pc (after_world res) pcId) of
                      None \<Rightarrow> Offline
                    | Some row' \<Rightarrow>
                        (case last_status row' of
                           None \<Rightarrow> Offline
                         | Some s \<Rightarrow> if s \<noteq> [] then Stale s (last_status_at row') else Offline))"
proof -
  let ?conn0 = "conn_ref w pcId"
  have f0: "(case ?conn0 of None \<Rightarrow> False | Some r \<Rightarrow> live (heap w r)) = False"
    using assms(7)[of _ 0] by (auto split: option.splits)
  let ?sc = "scan pcId clock ?conn0 False clock 0 scan_env w"
  from scan_not_found[OF assms(5,6), where foundConn=False and w=w and n=0 and scanStart=clock
                         and conn="?conn0" and clock=clock]
  obtain n' clock' where sc: "?sc = (?conn0, False, clock', n', run_ticks scan_env n' w)"
    and full: "clock + 2000 \<le> clock'" by auto
  from scan_bounds[where scanStart=clock and n=0 and clock=clock and pcId=pcId and conn="?conn0"
                     and foundConn=False and env=scan_env and w=w] sc
  have n': "n' \<le> 20" by simp
  have late: "\<forall>L. (\<forall>m. late (scan_env m) \<le> L) \<longrightarrow> clock' \<le> clock + 2099 + L"
  proof (intro allI impI)
    fix L assume "\<forall>m. late (scan_env m) \<le> L"
    then have "\<And>m. late (scan_env m) \<le> L" by simp
    from scan_clock[where env=scan_env and L=L and clock=clock and scanStart=clock and pcId=pcId
                      and conn="?conn0" and foundConn=False and n=0 and w=w, OF this] sc
    show "clock' \<le> clock + 2099 + L" by simp
  qed
  have dead: "(case ?conn0 of None \<Rightarrow> None
               | Some r \<Rightarrow> if live (heap (run_ticks scan_env n' w) r) then Some r else None) = None"
    using assms(7)[of _ n'] by (auto split: option.splits)
  have "probe session_user pcId probeId clock faults scan_env fast_env poll_env w =
          \<lparr>resp = probe_fallback faults pcId (run_ticks scan_env n' w),
           after_world = run_ticks scan_env n' w, emitted = [],
           scan_sleeps = n', scan_end = clock', conn_used = ?conn0,
           poll_sleeps = 0, phase = Unresolved\<rparr>"
    unfolding probe_of_owner[OF assms(1-4)] Let_def f0 sc fst_conv snd_conv dead by simp
  with n' full late show ?thesis
    by (simp add: Let_def probe_fallback_cases)
qed

lemma run_ticks_idle: "run_ticks idle m w = w"
  by (induction m) (simp_all add: idle_def)

theorem probe_of_device_that_never_connects_witness:
  "requireAuth (Some 7) = Some 7 \<and> \<not> owner_check_fails no_probe_faults \<and>
   first_row (select_pc store0 ''tmp1'') = Some lab_row \<and> owner_id lab_row = Some 7 \<and>
   conn_ref store0 ''tmp1'' = None \<and>
   phase (probe (Some 7) ''tmp1'' ''p1'' 5000 no_probe_faults idle [] idle store0) = Unresolved \<and>
   emitted (probe (Some 7) ''tmp1'' ''p1'' 5000 no_probe_faults idle [] idle store0) = [] \<and>
   scan_sleeps (probe (Some 7) ''tmp1'' ''p1'' 5000 no_probe_faults idle [] idle store0) \<le> 20 \<and>
   scan_end (probe (Some 7) ''tmp1'' ''p1'' 5000 no_probe_faults idle [] idle store0) \<le> 7099 \<and>
   resp (probe (Some 7) ''tmp1'' ''p1'' 5000 no_probe_faults idle [] idle store0) =
     Stale ''Locked'' (Some 900)"
proof -
  have h1: "requireAuth (Some 7) = Some 7"
    by (simp add: requireAuth_def or_null_num_def truthy_num_def)
  have h2: "\<not> owner_check_fails no_probe_faults" by (simp add: no_probe_faults_def)
  have h3: "first_row (select_pc store0 ''tmp1'') = Some lab_row"
    by (simp add: first_row_def select_pc_def store0_def lab_row_def spare_row_def)
  have h4: "owner_id lab_row = Some 7" by (simp add: lab_row_def)
  have h5: "scan_registry (run_ticks idle m store0) ''tmp1'' = None" for m
    by (simp add: run_ticks_idle scan_registry_def conn_ref_def store0_def)
  have h6: "scan_sockets (run_ticks idle m store0) ''tmp1'' = None" for m
    by (simp add: run_ticks_idle scan_sockets_def store0_def)
  have h7: "conn_ref store0 ''tmp1'' = Some r \<Longrightarrow> \<not> live (heap (run_ticks idle m store0) r)" for m r
    by (simp add: conn_ref_def store0_def)
  have l: "\<forall>m. late (idle m) \<le> 0" by (simp add: idle_def)
  have p: "\<not> persisted_read_fails no_probe_faults" by (simp add: no_probe_faults_def)
  have s: "last_status lab_row = Some ''Locked''" "last_status_at lab_row = Some 900"
    by (simp_all add: lab_row_def)
  note t = probe_of_device_that_never_connects[OF h1 h2 h3 h4 h5 h6 h7,
         where probeId="''p1''" and clock=5000 and fast_env="[]" and poll_env=idle, unfolded Let_def]
  from t l
  have e: "scan_end (probe (Some 7) ''tmp1'' ''p1'' 5000 no_probe_faults idle [] idle store0)
             \<le> 5000 + 2099 + 0"
    by blast
  from t
  have "phase (probe (Some 7) ''tmp1'' ''p1'' 5000 no_probe_faults idle [] idle store0) = Unresolved \<and>
   emitted (probe (Some 7) ''tmp1'' ''p1'' 5000 no_probe_faults idle [] idle store0) = [] \<and>
   scan_sleeps (probe (Some 7) ''tmp1'' ''p1'' 5000 no_probe_faults idle [] idle store0) \<le> 20 \<and>
   resp (probe (Some 7) ''tmp1'' ''p1'' 5000 no_probe_faults idle [] idle store0) =
     Stale ''Locked'' (Some 900)"
    by (simp add: run_ticks_idle h3 p s)
  with e have "phase (probe (Some 7) ''tmp1'' ''p1'' 5000 no_probe_faults idle [] idle store0) = Unresolved \<and>
   emitted (probe (Some 7) ''tmp1'' ''p1'' 5000 no_probe_faults idle [] idle store0) = [] \<and>
   scan_sleeps (probe (Some 7) ''tmp1'' ''p1'' 5000 no_probe_faults idle [] idle store0) \<le> 20 \<and>
   scan_end (probe (Some 7) ''tmp1'' ''p1'' 5000 no_probe_faults idle [] idle store0) \<le> 7099 \<and>
   resp (probe (Some 7) ''tmp1'' ''p1'' 5000 no_probe_faults idle [] idle store0) =
     Stale ''Locked'' (Some 900)"
    by simp
  moreover have "conn_ref store0 ''tmp1'' = None" by (simp add: conn_ref_def store0_def)
  ultimately show ?thesis using h1 h2 h3 h4 by blast
qed

section \<open>A probe that nobody answers\<close>












section \<open>The keys of the registry\<close>




















end
